theory Spec2Isabelle
  imports Complex_Main "HOL-Library.Multiset"
begin

text \<open>
  The script of the chat page: \<open>static/js/app.js\<close> and its near-duplicate
  \<open>unnamed/part_000\<close>. The model follows the functions \<open>sendMessage\<close> (with its loop
  over the streamed response), \<open>addMessage\<close>, \<open>isNearBottom\<close>, \<open>scrollToBottomIfNear\<close>,
  \<open>speak\<close>, \<open>getRandomSuggestions\<close>, \<open>startNewChat\<close>, \<open>loadChatHistory\<close>,
  \<open>createChatItem\<close>, \<open>showContextMenu\<close> and \<open>deleteChat\<close> (with the modal of
  \<open>part_000\<close>). Where the two files differ, a function takes the file as its first
  argument.
\<close>

section \<open>Text\<close>

text \<open>
  JavaScript strings are modelled as \<open>string\<close>; a character outside ASCII stands as its
  UTF-8 bytes. The operations below are the ones the program calls on strings:
  \<open>split('\n')\<close>, \<open>startsWith\<close>, \<open>slice(6)\<close> (written \<open>drop 6\<close>), \<open>trim\<close> and the
  decimal printing of a non-negative integer (in \<open>'session_' + Date.now()\<close>).
\<close>

fun split_on :: "char \<Rightarrow> string \<Rightarrow> string list" where
  "split_on c [] = [[]]"
| "split_on c (x # xs) =
     (if x = c then [] # split_on c xs
      else (case split_on c xs of [] \<Rightarrow> [[x]] | l # ls \<Rightarrow> (x # l) # ls))"

definition startsWith :: "string \<Rightarrow> string \<Rightarrow> bool" where
  "startsWith s p = (take (length p) s = p)"

text \<open>
  The white space and line terminators that \<open>String.prototype.trim\<close> removes (U+0009 to
  U+000D, U+0020, U+00A0, U+1680, U+2000 to U+200A, U+2028, U+2029, U+202F, U+205F,
  U+3000, U+FEFF), each as its UTF-8 bytes.
\<close>

definition white_space :: "string list" where
  "white_space =
     [[CHR 0x09], [CHR 0x0A], [CHR 0x0B], [CHR 0x0C], [CHR 0x0D], [CHR 0x20],
      [CHR 0xC2, CHR 0xA0], [CHR 0xE1, CHR 0x9A, CHR 0x80],
      [CHR 0xE2, CHR 0x80, CHR 0x80], [CHR 0xE2, CHR 0x80, CHR 0x81],
      [CHR 0xE2, CHR 0x80, CHR 0x82], [CHR 0xE2, CHR 0x80, CHR 0x83],
      [CHR 0xE2, CHR 0x80, CHR 0x84], [CHR 0xE2, CHR 0x80, CHR 0x85],
      [CHR 0xE2, CHR 0x80, CHR 0x86], [CHR 0xE2, CHR 0x80, CHR 0x87],
      [CHR 0xE2, CHR 0x80, CHR 0x88], [CHR 0xE2, CHR 0x80, CHR 0x89],
      [CHR 0xE2, CHR 0x80, CHR 0x8A], [CHR 0xE2, CHR 0x80, CHR 0xA8],
      [CHR 0xE2, CHR 0x80, CHR 0xA9], [CHR 0xE2, CHR 0x80, CHR 0xAF],
      [CHR 0xE2, CHR 0x81, CHR 0x9F], [CHR 0xE3, CHR 0x80, CHR 0x80],
      [CHR 0xEF, CHR 0xBB, CHR 0xBF]]"

definition ws_prefix :: "string list \<Rightarrow> string \<Rightarrow> nat" where
  "ws_prefix ws s = (case filter (\<lambda>w. take (length w) s = w) ws of [] \<Rightarrow> 0 | w # _ \<Rightarrow> length w)"

fun strip :: "string list \<Rightarrow> string \<Rightarrow> string" where
  "strip ws [] = []"
| "strip ws (c # cs) =
     (if ws_prefix ws (c # cs) = 0 then c # cs
      else strip ws (drop (ws_prefix ws (c # cs) - 1) cs))"

definition trim :: "string \<Rightarrow> string" where
  "trim s = rev (strip (map rev white_space) (rev (strip white_space s)))"

fun decimal :: "nat \<Rightarrow> string" where
  "decimal n =
     (if n < 10 then [''0123456789'' ! n]
      else decimal (n div 10) @ [''0123456789'' ! (n mod 10)])"

declare decimal.simps [simp del]

definition join :: "string \<Rightarrow> string list \<Rightarrow> string" where
  "join sep xs = (case xs of [] \<Rightarrow> [] | x # r \<Rightarrow> x @ concat (map ((@) sep) r))"


section \<open>JSON values and the coercions of the frame handler\<close>

text \<open>
  What \<open>JSON.parse\<close> returns. A number is the decimal \<open>Dec m e\<close> (the value
  \<open>m * 10 ^ e\<close>) or an infinity (a literal beyond the range of a double). An object keeps
  its members in source order; of two members of one name the later is the property
  (\<open>field\<close>).
\<close>

datatype number = Dec int int | PosInfinity | NegInfinity

datatype json = JNull | JBool bool | JNum number | JStr string
  | JArr "json list" | JObj "(string \<times> json) list"

text \<open>
  \<open>data.k\<close> for a parsed value other than \<open>null\<close>: \<open>None\<close> is \<open>undefined\<close>. Only an
  object has properties named \<open>text\<close>, \<open>done\<close> or \<open>error\<close>; on a string, number, boolean
  or array the lookup finds nothing on the prototype. On \<open>null\<close> the access throws
  (see \<open>on_frame\<close>).
\<close>

definition field :: "json \<Rightarrow> string \<Rightarrow> json option" where
  "field data k = (case data of JObj kvs \<Rightarrow> map_of (rev kvs) k | _ \<Rightarrow> None)"

text \<open>ToBoolean, as \<open>if (data.text)\<close> applies it.\<close>

fun truthy :: "json \<Rightarrow> bool" where
  "truthy JNull = False"
| "truthy (JBool b) = b"
| "truthy (JNum (Dec m e)) = (m \<noteq> 0)"
| "truthy (JNum PosInfinity) = True"
| "truthy (JNum NegInfinity) = True"
| "truthy (JStr s) = (s \<noteq> [])"
| "truthy (JArr vs) = True"
| "truthy (JObj kvs) = True"

definition truthy_field :: "json \<Rightarrow> string \<Rightarrow> json option" where
  "truthy_field data k =
     (case field data k of None \<Rightarrow> None | Some v \<Rightarrow> if truthy v then Some v else None)"

text \<open>
  The string that \<open>s + v\<close> appends for a string \<open>s\<close>: \<open>None\<close> is a TypeError. A string is
  itself; a number is printed by the platform (\<open>ns\<close>); an array joins its elements with
  commas, \<open>null\<close> printing as nothing; an object prints as \<open>[object Object]\<close>, unless it
  has a member \<open>toString\<close>, which shadows the inherited method with a value that is not
  callable.
\<close>

fun ToString :: "(number \<Rightarrow> string) \<Rightarrow> json \<Rightarrow> string option" where
  "ToString ns JNull = Some ''null''"
| "ToString ns (JBool b) = Some (if b then ''true'' else ''false'')"
| "ToString ns (JNum n) = Some (ns n)"
| "ToString ns (JStr s) = Some s"
| "ToString ns (JArr vs) =
     map_option (join '','')
       (those (map (\<lambda>v. if v = JNull then Some [] else ToString ns v) vs))"
| "ToString ns (JObj kvs) =
     (if ''toString'' \<in> set (map fst kvs) then None else Some ''[object Object]'')"


section \<open>The page\<close>

text \<open>
  The children of \<open>#chat-messages\<close>: a message \<open>div\<close> with its class name and its
  content, set either through \<open>innerHTML\<close> (markup) or through \<open>textContent\<close> (literal
  text); the empty state with its suggestion chips; the typing indicator.
\<close>

datatype content = InnerHTML string | TextContent string

datatype node = Element string content | EmptyState "string list" | TypingIndicator

record chat =
  chat_id :: string
  chat_title :: "string option"

record chat_item =
  item_id :: string
  item_title :: string
  item_active :: bool

text \<open>
  The module's variables and the parts of the document the program reads and writes.
  \<open>speakCalls\<close>, \<open>alerts\<close>, \<open>posted\<close> and \<open>listRequests\<close> record what the program
  asked of the outside: the arguments of \<open>speak\<close>, the alerts shown, the bodies posted to
  \<open>/chat/stream\<close> (message, session id), and how many times \<open>/history/sessions\<close> was
  fetched. Console output, the style of the fade-out animation and the utterance's
  voice, rate and pitch are not part of the state.
\<close>

record ui =
  sessionId :: string
  currentChatToDelete :: "string option"
  isTTSEnabled :: bool
  hasSpeechSynthesis :: bool
  utterance :: "string option"
  chatMessages :: "node list"
  scrollTop :: int
  clientHeight :: int
  chatList :: "chat_item list"
  inputValue :: string
  inputDisabled :: bool
  sendDisabled :: bool
  menuShown :: bool
  modalShown :: bool
  speakCalls :: "string list"
  alerts :: "string list"
  posted :: "(string \<times> string) list"
  listRequests :: nat

text \<open>
  What the program is given by its surroundings: the markdown renderer \<open>marked.parse\<close>,
  \<open>JSON.parse\<close> (\<open>None\<close> is a SyntaxError), the printing of numbers, the rendered height
  of a child of \<open>#chat-messages\<close>, and the answer to the k-th request for
  \<open>/history/sessions\<close> (\<open>None\<close>: the request or its decoding failed, or the answer has
  no \<open>sessions\<close>).
\<close>

record env =
  marked_parse :: "string \<Rightarrow> string"
  JSON_parse :: "string \<Rightarrow> json option"
  Number_toString :: "number \<Rightarrow> string"
  layout :: "node \<Rightarrow> int"
  sessions_reply :: "nat \<Rightarrow> chat list option"

text \<open>The two source files: \<open>static/js/app.js\<close> and \<open>unnamed/part_000\<close>.\<close>

datatype variant = AppJs | Part000


section \<open>Scrolling\<close>

text \<open>
  \<open>scrollHeight\<close> is the height of the content, at least the height of the viewport.
  Assigning \<open>scrollTop = scrollHeight\<close> scrolls to the largest position there is,
  \<open>scrollHeight - clientHeight\<close>; a change of the content that leaves \<open>scrollTop\<close> beyond
  that position moves it back (\<open>reflow\<close>).
\<close>

definition scrollHeight :: "env \<Rightarrow> ui \<Rightarrow> int" where
  "scrollHeight E st = max (clientHeight st) (sum_list (map (layout E) (chatMessages st)))"

definition isNearBottom :: "env \<Rightarrow> ui \<Rightarrow> bool" where
  "isNearBottom E st = (scrollTop st + clientHeight st \<ge> scrollHeight E st - 10)"

definition scrollToBottom :: "env \<Rightarrow> ui \<Rightarrow> ui" where
  "scrollToBottom E st = st\<lparr>scrollTop := scrollHeight E st - clientHeight st\<rparr>"

definition scrollToBottomIfNear :: "env \<Rightarrow> ui \<Rightarrow> ui" where
  "scrollToBottomIfNear E st = (if isNearBottom E st then scrollToBottom E st else st)"

definition reflow :: "env \<Rightarrow> ui \<Rightarrow> ui" where
  "reflow E st = st\<lparr>scrollTop := min (scrollTop st) (scrollHeight E st - clientHeight st)\<rparr>"

definition set_children :: "env \<Rightarrow> node list \<Rightarrow> ui \<Rightarrow> ui" where
  "set_children E ns st = reflow E (st\<lparr>chatMessages := ns\<rparr>)"

definition appendChild :: "env \<Rightarrow> node \<Rightarrow> ui \<Rightarrow> ui" where
  "appendChild E n st = set_children E (chatMessages st @ [n]) st"

definition removeChild :: "env \<Rightarrow> nat \<Rightarrow> ui \<Rightarrow> ui" where
  "removeChild E i st = set_children E (take i (chatMessages st) @ drop (Suc i) (chatMessages st)) st"

definition with_content :: "content \<Rightarrow> node \<Rightarrow> node" where
  "with_content c n = (case n of Element cls old \<Rightarrow> Element cls c | _ \<Rightarrow> n)"

definition set_content :: "env \<Rightarrow> nat \<Rightarrow> content \<Rightarrow> ui \<Rightarrow> ui" where
  "set_content E i c st =
     set_children E ((chatMessages st)[i := with_content c (chatMessages st ! i)]) st"


section \<open>Speech and the session list\<close>

definition speak :: "string \<Rightarrow> ui \<Rightarrow> ui" where
  "speak t st =
     (let st1 = st\<lparr>speakCalls := speakCalls st @ [t]\<rparr>
      in if \<not> isTTSEnabled st1 \<or> \<not> hasSpeechSynthesis st1 then st1
         else st1\<lparr>utterance := Some t\<rparr>)"

definition createChatItem :: "string \<Rightarrow> string \<Rightarrow> bool \<Rightarrow> chat_item" where
  "createChatItem i title isActive = \<lparr>item_id = i, item_title = title, item_active = isActive\<rparr>"

definition title_or_default :: "chat \<Rightarrow> string" where
  "title_or_default c =
     (case chat_title c of None \<Rightarrow> ''Untitled Chat''
      | Some t \<Rightarrow> if t = [] then ''Untitled Chat'' else t)"

definition loadChatHistory :: "env \<Rightarrow> ui \<Rightarrow> ui" where
  "loadChatHistory E st =
     (let st1 = st\<lparr>listRequests := listRequests st + 1\<rparr>
      in case sessions_reply E (listRequests st) of
           None \<Rightarrow> st1\<lparr>chatList := []\<rparr>
         | Some chats \<Rightarrow>
             st1\<lparr>chatList :=
               map (\<lambda>c. createChatItem (chat_id c) (title_or_default c) (chat_id c = sessionId st1))
                 chats\<rparr>)"


section \<open>addMessage\<close>

text \<open>
  \<open>app.js\<close> lines 260 to 270, \<open>part_000\<close> lines 312 to 325. The class name is
  \<open>message\<close> and the role; \<open>app.js\<close> scrolls to the bottom after the append,
  \<open>part_000\<close> calls \<open>scrollToBottomIfNear\<close> when \<open>wasNearBottom\<close> held before it.
\<close>

definition addMessage :: "variant \<Rightarrow> env \<Rightarrow> string \<Rightarrow> string \<Rightarrow> ui \<Rightarrow> ui" where
  "addMessage v E role message st =
     (let wasNearBottom = isNearBottom E st;
          messageDiv = Element (''message '' @ role)
            (if role = ''bot'' then InnerHTML (marked_parse E message) else TextContent message);
          st1 = appendChild E messageDiv st
      in case v of
           AppJs \<Rightarrow> scrollToBottom E st1
         | Part000 \<Rightarrow> if wasNearBottom then scrollToBottomIfNear E st1 else st1)"


section \<open>The stream consumer of sendMessage\<close>

text \<open>
  \<open>app.js\<close> lines 221 to 248, \<open>part_000\<close> lines 256 to 288.
  The body of the \<open>try\<close> inside the loop over the lines, after \<open>JSON.parse\<close> has
  returned \<open>data\<close>; \<open>None\<close> is an exception, which the \<open>catch\<close> beside it logs. The state
  is the accumulator \<open>fullText\<close> and the page; \<open>i\<close> is the position of \<open>messageDiv\<close>
  among the children of \<open>#chat-messages\<close>, and \<open>follow\<close> says whether a rendering of
  text scrolls to the bottom: always in \<open>app.js\<close>, when \<open>wasNearBottom\<close> in
  \<open>part_000\<close>.
\<close>

definition on_frame ::
  "env \<Rightarrow> bool \<Rightarrow> nat \<Rightarrow> json \<Rightarrow> string \<times> ui \<Rightarrow> (string \<times> ui) option" where
  "on_frame E follow i data s =
     (case s of (fullText, st) \<Rightarrow>
        if data = JNull then None
        else
          (case truthy_field data ''text'' of
             Some t \<Rightarrow>
               (case ToString (Number_toString E) t of
                  None \<Rightarrow> None
                | Some d \<Rightarrow>
                    let st1 = set_content E i (InnerHTML (marked_parse E (fullText @ d))) st
                    in Some (fullText @ d, if follow then scrollToBottom E st1 else st1))
           | None \<Rightarrow>
               (case truthy_field data ''done'' of
                  Some b \<Rightarrow> Some (fullText, loadChatHistory E (speak fullText st))
                | None \<Rightarrow>
                    (case truthy_field data ''error'' of
                       Some e \<Rightarrow>
                         (case ToString (Number_toString E) e of
                            None \<Rightarrow> None
                          | Some m \<Rightarrow> Some (fullText, set_content E i (TextContent (''Error: '' @ m)) st))
                     | None \<Rightarrow> Some s))))"

definition process_line :: "env \<Rightarrow> bool \<Rightarrow> nat \<Rightarrow> string \<Rightarrow> string \<times> ui \<Rightarrow> string \<times> ui" where
  "process_line E follow i line s =
     (if startsWith line ''data: '' then
        (case JSON_parse E (drop 6 line) of
           None \<Rightarrow> s
         | Some data \<Rightarrow> (case on_frame E follow i data s of None \<Rightarrow> s | Some s' \<Rightarrow> s'))
      else s)"

definition process_lines ::
  "env \<Rightarrow> bool \<Rightarrow> nat \<Rightarrow> string list \<Rightarrow> string \<times> ui \<Rightarrow> string \<times> ui" where
  "process_lines E follow i ls s = fold (process_line E follow i) ls s"

text \<open>One pass of the \<open>while\<close> loop on a chunk that \<open>reader.read()\<close> delivered, decoded.\<close>

definition process_chunk :: "env \<Rightarrow> bool \<Rightarrow> nat \<Rightarrow> string \<Rightarrow> string \<times> ui \<Rightarrow> string \<times> ui" where
  "process_chunk E follow i chunk s = process_lines E follow i (split_on (CHR 0x0A) chunk) s"

definition read_loop ::
  "env \<Rightarrow> bool \<Rightarrow> nat \<Rightarrow> string list \<Rightarrow> string \<times> ui \<Rightarrow> string \<times> ui" where
  "read_loop E follow i chunks s = fold (process_chunk E follow i) chunks s"


section \<open>sendMessage\<close>

text \<open>\<open>app.js\<close> lines 164 to 258, \<open>part_000\<close> lines 193 to 300.\<close>

datatype body_end = Closed | ReadFailed

text \<open>
  What the request to \<open>/chat/stream\<close> comes to: \<open>fetch\<close> rejects, or a response arrives
  with its \<open>ok\<close> flag and a body, read as finitely many decoded chunks before
  \<open>reader.read()\<close> either reports the end or rejects. A body that never ends is not a
  value of this type.
\<close>

datatype fetch_result = Rejected | Responded bool "string list" body_end

definition fetchErrorMessage :: string where
  "fetchErrorMessage =
     CHR 0xE2 # CHR 0x9D # CHR 0x8C # '' Error: Unable to fetch response. Please try again.''"

definition is_empty_state :: "node \<Rightarrow> bool" where
  "is_empty_state n = (case n of EmptyState chips \<Rightarrow> True | _ \<Rightarrow> False)"

text \<open>
  \<open>chatMessages.querySelector('.empty-state')\<close>: the position of the first child that is
  an empty state, \<open>None\<close> for \<open>null\<close>. \<open>sendMessage\<close> only appends children and removes
  children behind it, so the position names the same node until that node is removed.
\<close>

fun find_first :: "('a \<Rightarrow> bool) \<Rightarrow> 'a list \<Rightarrow> nat option" where
  "find_first P [] = None"
| "find_first P (x # xs) = (if P x then Some 0 else map_option Suc (find_first P xs))"

text \<open>
  The callback that \<open>sendMessage\<close> hands to \<open>setTimeout(..., 300)\<close> when it found an empty
  state: \<open>emptyState.remove()\<close>.
\<close>

definition remove_node :: "env \<Rightarrow> nat option \<Rightarrow> ui \<Rightarrow> ui" where
  "remove_node E e st = (case e of None \<Rightarrow> st | Some j \<Rightarrow> removeChild E j st)"

text \<open>
  When that callback runs. It cannot run before \<open>sendMessage\<close> first awaits, and it runs
  between two steps of the function only where the function awaits: while \<open>fetch\<close> is
  awaited, or while a \<open>reader.read()\<close> is awaited, after some number of chunks have been
  processed. Otherwise it runs after \<open>sendMessage\<close> has returned, and the page that
  \<open>sendMessage\<close> returns still has the empty state.
\<close>

datatype timing = WhileFetching | WhileReading nat | AfterReturn

text \<open>The list without its first element that satisfies \<open>P\<close>.\<close>

fun remove_first :: "('a \<Rightarrow> bool) \<Rightarrow> 'a list \<Rightarrow> 'a list" where
  "remove_first P [] = []"
| "remove_first P (x # xs) = (if P x then xs else x # remove_first P xs)"

text \<open>
  Whether the callback has run when \<open>sendMessage\<close> returns: a response that is not read
  (rejected, or not \<open>ok\<close>) leaves no await after \<open>fetch\<close>.
\<close>

definition faded :: "timing \<Rightarrow> fetch_result \<Rightarrow> bool" where
  "faded t res =
     (case t of
        WhileFetching \<Rightarrow> True
      | WhileReading k \<Rightarrow> (case res of Rejected \<Rightarrow> False | Responded ok chunks e \<Rightarrow> ok)
      | AfterReturn \<Rightarrow> False)"

text \<open>
  From the call to the moment the request is in flight: the user's message is appended
  (the empty state, if any, is still a child), the controls are disabled, the typing
  indicator is the last child.
\<close>

definition sendMessage_request :: "variant \<Rightarrow> env \<Rightarrow> ui \<Rightarrow> ui" where
  "sendMessage_request v E st =
     (let message = trim (inputValue st);
          st2 = addMessage v E ''user'' message st;
          st3 = st2\<lparr>inputValue := [], inputDisabled := True, sendDisabled := True\<rparr>;
          st4 = appendChild E TypingIndicator st3;
          st5 = (case v of AppJs \<Rightarrow> scrollToBottom E st4 | Part000 \<Rightarrow> scrollToBottomIfNear E st4)
      in st5\<lparr>posted := posted st5 @ [(message, sessionId st5)]\<rparr>)"

text \<open>
  A response with \<open>ok\<close> set, on the page \<open>s\<close> as it is when \<open>fetch\<close> resolves: the
  typing indicator (the last child) is removed, the bot's \<open>messageDiv\<close> is appended, and
  the loop reads the chunks. With the timing \<open>WhileReading k\<close> the callback runs when
  \<open>k\<close> chunks have been processed (or all of them, if there are fewer): the empty state
  \<open>e\<close> is removed and \<open>messageDiv\<close> is one position nearer the front. The result is
  \<open>fullText\<close> and the page when the chunks have been read.
\<close>

definition sendMessage_stream ::
  "variant \<Rightarrow> env \<Rightarrow> timing \<Rightarrow> nat option \<Rightarrow> string list \<Rightarrow> ui \<Rightarrow> string \<times> ui" where
  "sendMessage_stream v E t e chunks s =
     (let s1 = removeChild E (length (chatMessages s) - 1) s;
          messageDiv = length (chatMessages s1);
          s2 = appendChild E (Element ''message bot'' (InnerHTML [])) s1;
          s3 = (case v of AppJs \<Rightarrow> scrollToBottom E s2 | Part000 \<Rightarrow> s2);
          follow = (case v of AppJs \<Rightarrow> True | Part000 \<Rightarrow> isNearBottom E s2)
      in case t of
           WhileReading k \<Rightarrow>
             (case read_loop E follow messageDiv (take k chunks) ([], s3) of
                (fullText, st) \<Rightarrow>
                  read_loop E follow (case e of None \<Rightarrow> messageDiv | Some j \<Rightarrow> messageDiv - 1)
                    (drop k chunks) (fullText, remove_node E e st))
         | _ \<Rightarrow> read_loop E follow messageDiv chunks ([], s3))"

definition enable_controls :: "ui \<Rightarrow> ui" where
  "enable_controls st = st\<lparr>inputDisabled := False, sendDisabled := False\<rparr>"

text \<open>
  \<open>sendMessage\<close> for a timing of the callback and an outcome of the request. The
  \<open>catch\<close>: \<open>typingDiv.remove()\<close>, which does something only when the indicator is
  still in the document (\<open>fetch\<close> rejected), then the error message.
\<close>

definition sendMessage :: "variant \<Rightarrow> env \<Rightarrow> timing \<Rightarrow> fetch_result \<Rightarrow> ui \<Rightarrow> ui" where
  "sendMessage v E t res st =
     (if trim (inputValue st) = [] then st
      else
        let emptyState = find_first is_empty_state (chatMessages st);
            s0 = sendMessage_request v E st;
            s = (case t of WhileFetching \<Rightarrow> remove_node E emptyState s0 | _ \<Rightarrow> s0);
            typingDiv = length (chatMessages s) - 1
        in enable_controls
             (case res of
                Rejected \<Rightarrow> addMessage v E ''bot'' fetchErrorMessage (removeChild E typingDiv s)
              | Responded ok chunks en \<Rightarrow>
                  if \<not> ok then addMessage v E ''bot'' fetchErrorMessage (removeChild E typingDiv s)
                  else
                    (case en of
                       Closed \<Rightarrow> snd (sendMessage_stream v E t emptyState chunks s)
                     | ReadFailed \<Rightarrow>
                         addMessage v E ''bot'' fetchErrorMessage
                           (snd (sendMessage_stream v E t emptyState chunks s)))))"


section \<open>Suggestions\<close>

definition suggestionPool :: "string list" where
  "suggestionPool =
     [''Tell me a fun fact'',
      ''Explain quantum computing'',
      ''Write a short poem'',
      ''What's the weather like today?'',
      ''Tell me a joke'',
      ''How does photosynthesis work?'',
      ''What are some healthy breakfast ideas?'',
      ''Explain the concept of recursion'',
      ''What's the meaning of life?'',
      ''Tell me about space exploration'',
      ''How to meditate for beginners?'',
      ''What's artificial intelligence?'',
      ''Give me cooking tips'',
      ''Explain blockchain technology'',
      ''What's your favorite color?'']"

text \<open>
  \<open>Array.prototype.sort\<close> with a comparator belongs to the engine. It is modelled as an
  insertion sort that asks the comparator once for each comparison: \<open>c k\<close> is what the
  k-th call of the comparator returns, and a positive value puts the first argument
  after the second. The comparator of \<open>getRandomSuggestions\<close> ignores its arguments and
  returns \<open>0.5 - Math.random()\<close>; \<open>rnd k\<close> is the k-th value of \<open>Math.random()\<close>.
\<close>

fun insert_by :: "(nat \<Rightarrow> real) \<Rightarrow> nat \<Rightarrow> 'a \<Rightarrow> 'a list \<Rightarrow> 'a list \<times> nat" where
  "insert_by c k x [] = ([x], k)"
| "insert_by c k x (y # ys) =
     (if 0 < c k then (case insert_by c (Suc k) x ys of (zs, k') \<Rightarrow> (y # zs, k'))
      else (x # y # ys, Suc k))"

fun sort_by :: "(nat \<Rightarrow> real) \<Rightarrow> nat \<Rightarrow> 'a list \<Rightarrow> 'a list \<times> nat" where
  "sort_by c k [] = ([], k)"
| "sort_by c k (x # xs) = (case sort_by c k xs of (ys, k') \<Rightarrow> insert_by c k' x ys)"

definition getRandomSuggestions :: "(nat \<Rightarrow> real) \<Rightarrow> nat \<Rightarrow> string list" where
  "getRandomSuggestions rnd cnt =
     (let shuffled = fst (sort_by (\<lambda>k. 0.5 - rnd k) 0 suggestionPool)
      in take cnt shuffled)"


section \<open>Starting a new chat and deleting a chat\<close>

text \<open>
  \<open>app.js\<close> lines 325 to 358, \<open>part_000\<close> lines 384 to 417.
  \<open>now\<close> is \<open>Date.now()\<close>. The empty state keeps the suggestions that
  \<open>generateSuggestionChipsHTML\<close> renders as chips.
\<close>

definition startNewChat :: "env \<Rightarrow> nat \<Rightarrow> (nat \<Rightarrow> real) \<Rightarrow> ui \<Rightarrow> ui" where
  "startNewChat E now rnd st =
     (let st1 = st\<lparr>sessionId := ''session_'' @ decimal now\<rparr>;
          randomSuggestions = getRandomSuggestions rnd 3;
          st2 = set_children E [EmptyState randomSuggestions] st1;
          st3 = st2\<lparr>chatList := map (\<lambda>c. c\<lparr>item_active := False\<rparr>) (chatList st2)\<rparr>
      in loadChatHistory E st3)"


datatype delete_result = DeleteRejected | DeleteResponded bool

definition deleteFailedMessage :: string where
  "deleteFailedMessage = ''Failed to delete chat. Please try again.''"

text \<open>
  \<open>app.js\<close> lines 466 to 502, \<open>part_000\<close> lines 529 to 578.
  \<open>!currentChatToDelete\<close> holds of \<open>null\<close> and of the empty string. In \<open>app.js\<close> the
  function hides the context menu and asks \<open>confirm(...)\<close> (\<open>confirmed\<close> is its answer);
  in \<open>part_000\<close> the modal has asked before the function is called (\<open>confirmDelete\<close>).
\<close>

definition deleteChat ::
  "variant \<Rightarrow> env \<Rightarrow> bool \<Rightarrow> delete_result \<Rightarrow> nat \<Rightarrow> (nat \<Rightarrow> real) \<Rightarrow> ui \<Rightarrow> ui" where
  "deleteChat v E confirmed res now rnd st =
     (if currentChatToDelete st = None \<or> currentChatToDelete st = Some [] then st
      else
        let st0 = (case v of AppJs \<Rightarrow> st\<lparr>menuShown := False\<rparr> | Part000 \<Rightarrow> st)
        in if v = AppJs \<and> \<not> confirmed then st0\<lparr>currentChatToDelete := None\<rparr>
           else
             (case res of
                DeleteRejected \<Rightarrow> st0\<lparr>alerts := alerts st0 @ [deleteFailedMessage]\<rparr>
              | DeleteResponded ok \<Rightarrow>
                  if ok then
                    (if currentChatToDelete st0 = Some (sessionId st0)
                     then startNewChat E now rnd st0
                     else loadChatHistory E st0)
                  else st0\<lparr>alerts := alerts st0 @ [deleteFailedMessage]\<rparr>)
             \<lparr>currentChatToDelete := None\<rparr>)"

definition showDeleteConfirmation :: "ui \<Rightarrow> ui" where
  "showDeleteConfirmation st =
     (let st1 = st\<lparr>menuShown := False\<rparr>
      in if currentChatToDelete st1 = None \<or> currentChatToDelete st1 = Some [] then st1
         else st1\<lparr>modalShown := True\<rparr>)"

definition cancelDelete :: "ui \<Rightarrow> ui" where
  "cancelDelete st = st\<lparr>modalShown := False, currentChatToDelete := None\<rparr>"

definition confirmDelete :: "env \<Rightarrow> delete_result \<Rightarrow> nat \<Rightarrow> (nat \<Rightarrow> real) \<Rightarrow> ui \<Rightarrow> ui" where
  "confirmDelete E res now rnd st = deleteChat Part000 E True res now rnd (st\<lparr>modalShown := False\<rparr>)"


section \<open>A reference platform\<close>

text \<open>
  The theorems below hold for every \<open>env\<close>. The examples run the program on the
  functions of this section: a reader of JSON texts after ECMA-404 (numbers are read
  exactly, zero or infinite where the literal is beyond the range of a double; the
  rounding of the digits to a double is not modelled), the rendering that
  \<open>marked.parse\<close> gives a single line of plain text, and the positional printing of a
  number.
\<close>

definition is_ws :: "char \<Rightarrow> bool" where
  "is_ws c = (c \<in> set [CHR 0x20, CHR 0x09, CHR 0x0A, CHR 0x0D])"

definition skip_ws :: "string \<Rightarrow> string" where
  "skip_ws s = dropWhile is_ws s"

definition is_digit :: "char \<Rightarrow> bool" where
  "is_digit c = (c \<in> set ''0123456789'')"

definition digits_val :: "string \<Rightarrow> nat" where
  "digits_val ds = foldl (\<lambda>a c. 10 * a + (of_char c - 48)) 0 ds"

definition round_double :: "bool \<Rightarrow> nat \<Rightarrow> int \<Rightarrow> number" where
  "round_double neg m e =
     (if m = 0 then Dec 0 0
      else if 0 \<le> e \<and> 2 ^ 1024 - 2 ^ 970 \<le> m * 10 ^ nat e
              \<or> e < 0 \<and> (2 ^ 1024 - 2 ^ 970) * 10 ^ nat (- e) \<le> m
           then (if neg then NegInfinity else PosInfinity)
      else if e < 0 \<and> m * 2 ^ 1075 \<le> 10 ^ nat (- e) then Dec 0 0
      else Dec (if neg then - int m else int m) e)"

definition parse_number :: "string \<Rightarrow> (json \<times> string) option" where
  "parse_number s =
     (let neg = (take 1 s = ''-'');
          s1 = (if neg then drop 1 s else s);
          ip = takeWhile is_digit s1;
          s2 = dropWhile is_digit s1;
          dot = (take 1 s2 = ''.'');
          fp = (if dot then takeWhile is_digit (drop 1 s2) else []);
          s3 = (if dot then dropWhile is_digit (drop 1 s2) else s2);
          ex = (take 1 s3 = ''e'' \<or> take 1 s3 = ''E'');
          s4 = (if ex then drop 1 s3 else s3);
          eneg = (ex \<and> take 1 s4 = ''-'');
          s5 = (if ex \<and> (take 1 s4 = ''-'' \<or> take 1 s4 = ''+'') then drop 1 s4 else s4);
          ep = (if ex then takeWhile is_digit s5 else []);
          s6 = (if ex then dropWhile is_digit s5 else s3)
      in if ip = [] \<or> (1 < length ip \<and> take 1 ip = ''0'') \<or> (dot \<and> fp = []) \<or> (ex \<and> ep = [])
         then None
         else Some (JNum (round_double neg (digits_val (ip @ fp))
                      ((if eneg then - int (digits_val ep) else int (digits_val ep)) - int (length fp))),
                    s6))"

definition hex_val :: "char \<Rightarrow> nat option" where
  "hex_val c = map_of (zip ''0123456789abcdefABCDEF''
       [0, 1, 2, 3, 4, 5, 6, 7, 8, 9, 10, 11, 12, 13, 14, 15, 10, 11, 12, 13, 14, 15]) c"

definition hex4 :: "string \<Rightarrow> nat option" where
  "hex4 s = (case map hex_val s of
       [Some a, Some b, Some c, Some d] \<Rightarrow> Some (((a * 16 + b) * 16 + c) * 16 + d)
     | _ \<Rightarrow> None)"

definition utf8 :: "nat \<Rightarrow> string" where
  "utf8 u =
     (if u < 0x80 then [char_of u]
      else if u < 0x800 then [char_of (0xC0 + u div 0x40), char_of (0x80 + u mod 0x40)]
      else if u < 0x10000 then
        [char_of (0xE0 + u div 0x1000), char_of (0x80 + u div 0x40 mod 0x40), char_of (0x80 + u mod 0x40)]
      else [char_of (0xF0 + u div 0x40000), char_of (0x80 + u div 0x1000 mod 0x40),
            char_of (0x80 + u div 0x40 mod 0x40), char_of (0x80 + u mod 0x40)])"

definition escape_char :: "char \<Rightarrow> char option" where
  "escape_char e = map_of
     [(CHR 0x22, CHR 0x22), (CHR 0x5C, CHR 0x5C), (CHR ''/'', CHR ''/''), (CHR ''b'', CHR 0x08),
      (CHR ''f'', CHR 0x0C), (CHR ''n'', CHR 0x0A), (CHR ''r'', CHR 0x0D), (CHR ''t'', CHR 0x09)] e"

fun parse_chars :: "string \<Rightarrow> (string \<times> string) option" where
  "parse_chars [] = None"
| "parse_chars (c # cs) =
     (if c = CHR 0x22 then Some ([], cs)
      else if c = CHR 0x5C then
        (case cs of
           [] \<Rightarrow> None
         | e # r \<Rightarrow>
             if e = CHR ''u'' then
               (case hex4 (take 4 r) of
                  None \<Rightarrow> None
                | Some u \<Rightarrow>
                    (case (if 0xD800 \<le> u \<and> u < 0xDC00 \<and> take 2 (drop 4 r) = [CHR 0x5C, CHR ''u'']
                           then hex4 (take 4 (drop 6 r)) else None) of
                       Some l \<Rightarrow>
                         if 0xDC00 \<le> l \<and> l < 0xE000
                         then map_option (apfst ((@) (utf8 (0x10000 + (u - 0xD800) * 0x400 + (l - 0xDC00)))))
                                (parse_chars (drop 10 r))
                         else map_option (apfst ((@) (utf8 u))) (parse_chars (drop 4 r))
                     | None \<Rightarrow> map_option (apfst ((@) (utf8 u))) (parse_chars (drop 4 r))))
             else
               (case escape_char e of
                  None \<Rightarrow> None
                | Some x \<Rightarrow> map_option (apfst ((#) x)) (parse_chars r)))
      else if of_char c < (0x20 :: nat) then None
      else map_option (apfst ((#) c)) (parse_chars cs))"

fun parse_value :: "nat \<Rightarrow> string \<Rightarrow> (json \<times> string) option"
  and parse_elements :: "nat \<Rightarrow> string \<Rightarrow> (json list \<times> string) option"
  and parse_members :: "nat \<Rightarrow> string \<Rightarrow> ((string \<times> json) list \<times> string) option"
where
  "parse_value 0 s = None"
| "parse_value (Suc n) s =
     (case skip_ws s of
        [] \<Rightarrow> None
      | c # r \<Rightarrow>
          if c = CHR ''{'' then
            (if take 1 (skip_ws r) = ''}'' then Some (JObj [], drop 1 (skip_ws r))
             else map_option (apfst JObj) (parse_members n r))
          else if c = CHR ''['' then
            (if take 1 (skip_ws r) = '']'' then Some (JArr [], drop 1 (skip_ws r))
             else map_option (apfst JArr) (parse_elements n r))
          else if c = CHR 0x22 then map_option (apfst JStr) (parse_chars r)
          else if take 4 (c # r) = ''true'' then Some (JBool True, drop 3 r)
          else if take 5 (c # r) = ''false'' then Some (JBool False, drop 4 r)
          else if take 4 (c # r) = ''null'' then Some (JNull, drop 3 r)
          else parse_number (c # r))"
| "parse_elements 0 s = None"
| "parse_elements (Suc n) s =
     (case parse_value n s of
        None \<Rightarrow> None
      | Some (v, r) \<Rightarrow>
          (case skip_ws r of
             [] \<Rightarrow> None
           | c # r' \<Rightarrow>
               if c = CHR '','' then map_option (apfst ((#) v)) (parse_elements n r')
               else if c = CHR '']'' then Some ([v], r')
               else None))"
| "parse_members 0 s = None"
| "parse_members (Suc n) s =
     (case skip_ws s of
        [] \<Rightarrow> None
      | q # r \<Rightarrow>
          if q \<noteq> CHR 0x22 then None
          else
            (case parse_chars r of
               None \<Rightarrow> None
             | Some (k, r1) \<Rightarrow>
                 (case skip_ws r1 of
                    [] \<Rightarrow> None
                  | c # r2 \<Rightarrow>
                      if c \<noteq> CHR '':'' then None
                      else
                        (case parse_value n r2 of
                           None \<Rightarrow> None
                         | Some (v, r3) \<Rightarrow>
                             (case skip_ws r3 of
                                [] \<Rightarrow> None
                              | d # r4 \<Rightarrow>
                                  if d = CHR '','' then map_option (apfst ((#) (k, v))) (parse_members n r4)
                                  else if d = CHR ''}'' then Some ([(k, v)], r4)
                                  else None)))))"

definition json_parse :: "string \<Rightarrow> json option" where
  "json_parse s =
     (case parse_value (Suc (length s)) s of
        None \<Rightarrow> None
      | Some (v, r) \<Rightarrow> if skip_ws r = [] then Some v else None)"

definition plain_marked :: "string \<Rightarrow> string" where
  "plain_marked s = (if s = [] then [] else ''<p>'' @ s @ ''</p>'' @ [CHR 0x0A])"

definition trim_zeros :: "string \<Rightarrow> string" where
  "trim_zeros s = rev (dropWhile (\<lambda>c. c = CHR ''0'') (rev s))"

definition show_number :: "number \<Rightarrow> string" where
  "show_number n =
     (case n of
        PosInfinity \<Rightarrow> ''Infinity''
      | NegInfinity \<Rightarrow> ''-Infinity''
      | Dec m e \<Rightarrow>
          (if m < 0 then ''-'' else []) @
          (if 0 \<le> e then decimal (nat \<bar>m\<bar> * 10 ^ nat e)
           else
             let ds = decimal (nat \<bar>m\<bar>);
                 k = nat (- e);
                 p = replicate (Suc k - length ds) (CHR ''0'') @ ds;
                 fp = trim_zeros (drop (length p - k) p)
             in take (length p - k) p @ (if fp = [] then [] else CHR ''.'' # fp)))"

definition sample_env :: env where
  "sample_env =
     \<lparr>marked_parse = plain_marked, JSON_parse = json_parse, Number_toString = show_number,
      layout = (\<lambda>n. 40),
      sessions_reply = (\<lambda>k. Some [\<lparr>chat_id = ''session_1'', chat_title = Some ''Hello''\<rparr>])\<rparr>"

text \<open>
  \<open>sample_page\<close> is a fresh page with \<open>Hello\<close> typed into the input;
  \<open>streaming_page\<close> is that page when the message has been sent, the empty state has
  gone and the response begins: the user's message and the bot's empty \<open>messageDiv\<close>,
  the controls disabled.
\<close>

definition sample_page :: ui where
  "sample_page =
     \<lparr>sessionId = ''session_1'', currentChatToDelete = None, isTTSEnabled = True,
      hasSpeechSynthesis = True, utterance = None,
      chatMessages = [EmptyState [''Tell me a joke'', ''Write a short poem'', ''Give me cooking tips'']],
      scrollTop = 0, clientHeight = 100, chatList = [], inputValue = ''Hello'',
      inputDisabled = False, sendDisabled = False, menuShown = False, modalShown = False,
      speakCalls = [], alerts = [], posted = [], listRequests = 0\<rparr>"

definition streaming_page :: ui where
  "streaming_page =
     sample_page\<lparr>chatMessages :=
         [Element ''message user'' (TextContent ''Hello''), Element ''message bot'' (InnerHTML [])],
       inputValue := [], inputDisabled := True, sendDisabled := True,
       posted := [(''Hello'', ''session_1'')]\<rparr>"

text \<open>
  Five messages of 40 pixels each in the viewport of 100 pixels, scrolled to \<open>y\<close>:
  the content is 200 pixels high, \<open>y = 100\<close> is the bottom and \<open>y = 0\<close> the top.
\<close>

definition scrolled_page :: "int \<Rightarrow> ui" where
  "scrolled_page y =
     sample_page\<lparr>chatMessages :=
         [Element ''message user'' (TextContent ''a''), Element ''message bot'' (InnerHTML ''b''),
          Element ''message user'' (TextContent ''c''), Element ''message bot'' (InnerHTML ''d''),
          Element ''message user'' (TextContent ''e'')],
       scrollTop := y\<rparr>"


section \<open>Shapes of frames and chunks used in the statements\<close>

text \<open>
  A frame that parses to an object with a single member, named \<open>text\<close>, \<open>done\<close> or
  \<open>error\<close>, whose value is falsy: \<open>{"text": ""}\<close>, \<open>{"done": false}\<close>, \<open>{"error": ""}\<close>.
\<close>

fun falsy_frame :: "json \<Rightarrow> bool" where
  "falsy_frame (JObj [(k, v)]) = (k \<in> set [''text'', ''done'', ''error''] \<and> \<not> truthy v)"
| "falsy_frame data = False"

text \<open>The lines of a response, chunk by chunk, that carry the prefix.\<close>

definition data_lines :: "string list \<Rightarrow> string list" where
  "data_lines chunks =
     filter (\<lambda>l. startsWith l ''data: '') (concat (map (split_on (CHR 0x0A)) chunks))"

text \<open>
  A line the loop acts on: it carries the prefix and its remainder parses.
\<close>

definition acts_on :: "env \<Rightarrow> string \<Rightarrow> bool" where
  "acts_on E l = (startsWith l ''data: '' \<and> JSON_parse E (drop 6 l) \<noteq> None)"


section \<open>Evaluation and the loop over the lines\<close>

lemmas parse_ev = json_parse_def skip_ws_def is_ws_def is_digit_def parse_number_def digits_val_def
  round_double_def hex_val_def hex4_def escape_char_def Let_def

lemma process_lines_Nil [simp]: "process_lines E f i [] s = s"
  by (simp add: process_lines_def)

lemma process_lines_Cons [simp]:
  "process_lines E f i (l # ls) s = process_lines E f i ls (process_line E f i l s)"
  by (simp add: process_lines_def)

lemma process_lines_append [simp]:
  "process_lines E f i (xs @ ys) s = process_lines E f i ys (process_lines E f i xs s)"
  by (simp add: process_lines_def)

lemma read_loop_Nil [simp]: "read_loop E f i [] s = s"
  by (simp add: read_loop_def)

lemma read_loop_Cons [simp]:
  "read_loop E f i (c # cs) s = read_loop E f i cs (process_chunk E f i c s)"
  by (simp add: read_loop_def)

lemma read_loop_lines:
  "read_loop E f i chunks s = process_lines E f i (concat (map (split_on (CHR 0x0A)) chunks)) s"
  by (induction chunks arbitrary: s) (simp_all add: process_chunk_def)

lemma process_line_other:
  "\<not> startsWith l ''data: '' \<Longrightarrow> process_line E f i l s = s"
  by (simp add: process_line_def)

lemma process_lines_filter:
  "process_lines E f i ls s = process_lines E f i (filter (\<lambda>l. startsWith l ''data: '') ls) s"
  by (induction ls arbitrary: s) (simp_all add: process_line_other)

lemma read_loop_data_lines:
  "read_loop E f i chunks s = process_lines E f i (data_lines chunks) s"
  unfolding read_loop_lines data_lines_def by (rule process_lines_filter)

lemma reflow_fields [simp]:
  "chatMessages (reflow E st) = chatMessages st"
  "speakCalls (reflow E st) = speakCalls st"
  "inputDisabled (reflow E st) = inputDisabled st"
  "sendDisabled (reflow E st) = sendDisabled st"
  "posted (reflow E st) = posted st"
  "sessionId (reflow E st) = sessionId st"
  "listRequests (reflow E st) = listRequests st"
  "clientHeight (reflow E st) = clientHeight st"
  by (simp_all add: reflow_def)

lemma set_children_fields [simp]:
  "chatMessages (set_children E ns st) = ns"
  "speakCalls (set_children E ns st) = speakCalls st"
  "inputDisabled (set_children E ns st) = inputDisabled st"
  "sendDisabled (set_children E ns st) = sendDisabled st"
  "posted (set_children E ns st) = posted st"
  "sessionId (set_children E ns st) = sessionId st"
  "listRequests (set_children E ns st) = listRequests st"
  "clientHeight (set_children E ns st) = clientHeight st"
  by (simp_all add: set_children_def)

lemma scrollToBottom_fields [simp]:
  "chatMessages (scrollToBottom E st) = chatMessages st"
  "speakCalls (scrollToBottom E st) = speakCalls st"
  "inputDisabled (scrollToBottom E st) = inputDisabled st"
  "sendDisabled (scrollToBottom E st) = sendDisabled st"
  "posted (scrollToBottom E st) = posted st"
  "sessionId (scrollToBottom E st) = sessionId st"
  "listRequests (scrollToBottom E st) = listRequests st"
  "clientHeight (scrollToBottom E st) = clientHeight st"
  by (simp_all add: scrollToBottom_def)

lemma scrollToBottomIfNear_fields [simp]:
  "chatMessages (scrollToBottomIfNear E st) = chatMessages st"
  "speakCalls (scrollToBottomIfNear E st) = speakCalls st"
  "inputDisabled (scrollToBottomIfNear E st) = inputDisabled st"
  "sendDisabled (scrollToBottomIfNear E st) = sendDisabled st"
  "posted (scrollToBottomIfNear E st) = posted st"
  "sessionId (scrollToBottomIfNear E st) = sessionId st"
  "listRequests (scrollToBottomIfNear E st) = listRequests st"
  "clientHeight (scrollToBottomIfNear E st) = clientHeight st"
  by (simp_all add: scrollToBottomIfNear_def)

lemma appendChild_fields [simp]:
  "chatMessages (appendChild E n st) = chatMessages st @ [n]"
  "speakCalls (appendChild E n st) = speakCalls st"
  "inputDisabled (appendChild E n st) = inputDisabled st"
  "sendDisabled (appendChild E n st) = sendDisabled st"
  "posted (appendChild E n st) = posted st"
  "sessionId (appendChild E n st) = sessionId st"
  "listRequests (appendChild E n st) = listRequests st"
  by (simp_all add: appendChild_def)

lemma removeChild_fields [simp]:
  "chatMessages (removeChild E i st) = take i (chatMessages st) @ drop (Suc i) (chatMessages st)"
  "speakCalls (removeChild E i st) = speakCalls st"
  "inputDisabled (removeChild E i st) = inputDisabled st"
  "sendDisabled (removeChild E i st) = sendDisabled st"
  "posted (removeChild E i st) = posted st"
  "sessionId (removeChild E i st) = sessionId st"
  "listRequests (removeChild E i st) = listRequests st"
  by (simp_all add: removeChild_def)

lemma set_content_fields [simp]:
  "chatMessages (set_content E i c st) = (chatMessages st)[i := with_content c (chatMessages st ! i)]"
  "speakCalls (set_content E i c st) = speakCalls st"
  "inputDisabled (set_content E i c st) = inputDisabled st"
  "sendDisabled (set_content E i c st) = sendDisabled st"
  "posted (set_content E i c st) = posted st"
  "sessionId (set_content E i c st) = sessionId st"
  "listRequests (set_content E i c st) = listRequests st"
  by (simp_all add: set_content_def)

lemma speak_fields [simp]:
  "chatMessages (speak t st) = chatMessages st"
  "speakCalls (speak t st) = speakCalls st @ [t]"
  "inputDisabled (speak t st) = inputDisabled st"
  "sendDisabled (speak t st) = sendDisabled st"
  "posted (speak t st) = posted st"
  "sessionId (speak t st) = sessionId st"
  "listRequests (speak t st) = listRequests st"
  by (simp_all add: speak_def Let_def)

lemma loadChatHistory_fields [simp]:
  "chatMessages (loadChatHistory E st) = chatMessages st"
  "speakCalls (loadChatHistory E st) = speakCalls st"
  "inputDisabled (loadChatHistory E st) = inputDisabled st"
  "sendDisabled (loadChatHistory E st) = sendDisabled st"
  "posted (loadChatHistory E st) = posted st"
  "sessionId (loadChatHistory E st) = sessionId st"
  "listRequests (loadChatHistory E st) = Suc (listRequests st)"
  "scrollTop (loadChatHistory E st) = scrollTop st"
  "clientHeight (loadChatHistory E st) = clientHeight st"
  "inputValue (loadChatHistory E st) = inputValue st"
  "alerts (loadChatHistory E st) = alerts st"
  by (simp_all add: loadChatHistory_def Let_def split: option.splits)

lemma addMessage_fields [simp]:
  "chatMessages (addMessage v E role m st) =
     chatMessages st @ [Element (''message '' @ role)
       (if role = ''bot'' then InnerHTML (marked_parse E m) else TextContent m)]"
  "speakCalls (addMessage v E role m st) = speakCalls st"
  "inputDisabled (addMessage v E role m st) = inputDisabled st"
  "sendDisabled (addMessage v E role m st) = sendDisabled st"
  "posted (addMessage v E role m st) = posted st"
  "sessionId (addMessage v E role m st) = sessionId st"
  "listRequests (addMessage v E role m st) = listRequests st"
  by (simp_all add: addMessage_def Let_def split: variant.splits)

lemma enable_controls_fields [simp]:
  "chatMessages (enable_controls st) = chatMessages st"
  "speakCalls (enable_controls st) = speakCalls st"
  "inputDisabled (enable_controls st) = False"
  "sendDisabled (enable_controls st) = False"
  "posted (enable_controls st) = posted st"
  "sessionId (enable_controls st) = sessionId st"
  "listRequests (enable_controls st) = listRequests st"
  by (simp_all add: enable_controls_def)


section \<open>Frames that are dropped\<close>

text \<open>
  Claim C7. A line that carries the prefix \<open>data: \<close> and whose remainder \<open>JSON.parse\<close>
  rejects changes neither the accumulator nor the page, and the lines before and after
  it are processed as if it had not been received.
\<close>

theorem malformed_frame_dropped:
  assumes "startsWith line ''data: ''" and "JSON_parse E (drop 6 line) = None"
  shows "process_line E follow i line s = s
       \<and> process_lines E follow i (pre @ line # post) s = process_lines E follow i (pre @ post) s"
  using assms by (simp add: process_line_def)

theorem malformed_frame_dropped_witness:
  \<open>startsWith ''data: {"te'' ''data: '' \<and> JSON_parse sample_env (drop 6 ''data: {"te'') = None
   \<and> process_line sample_env True 0 ''data: {"te'' (''Hi'', sample_page) = (''Hi'', sample_page)
   \<and> process_lines sample_env True 0 ([''data: {"text":"Hi"}''] @ ''data: {"te'' # [''data: {"done":true}'']) ([], sample_page)
     = process_lines sample_env True 0 ([''data: {"text":"Hi"}''] @ [''data: {"done":true}'']) ([], sample_page)\<close>
proof -
  have h1: \<open>startsWith ''data: {"te'' ''data: ''\<close>
    by (simp add: startsWith_def)
  have h2: \<open>JSON_parse sample_env (drop 6 ''data: {"te'') = None\<close>
    by (simp add: sample_env_def parse_ev)
  from malformed_frame_dropped [OF h1 h2] h1 h2 show ?thesis
    by blast
qed

lemma falsy_frame_no_field:
  assumes "falsy_frame data"
  shows "data \<noteq> JNull" and "truthy_field data k = None"
proof -
  from assms obtain a v where d: "data = JObj [(a, v)]" and v: "\<not> truthy v"
    by (auto elim: falsy_frame.elims(2))
  show "data \<noteq> JNull" using d by simp
  show "truthy_field data k = None" using d v by (simp add: truthy_field_def field_def)
qed

text \<open>
  Claim C10. The handler tests \<open>data.text\<close>, \<open>data.done\<close> and \<open>data.error\<close> for
  truthiness. A frame that parses and whose recognized field is falsy (\<open>{"text": ""}\<close>,
  \<open>{"done": false}\<close>, \<open>{"error": ""}\<close>) leaves the accumulator and the whole page as
  they were: nothing is appended or rendered, \<open>speak\<close> is not called, the session list
  is not fetched.
\<close>

theorem falsy_frame_ignored:
  assumes "startsWith line ''data: ''" and "JSON_parse E (drop 6 line) = Some data"
    and "falsy_frame data"
  shows "process_line E follow i line s = s"
  using assms(1,2) falsy_frame_no_field [OF assms(3)]
  by (simp add: process_line_def on_frame_def split: prod.splits)


theorem falsy_frame_ignored_witness:
  \<open>(startsWith ''data: {"text":""}'' ''data: ''
      \<and> JSON_parse sample_env (drop 6 ''data: {"text":""}'') = Some (JObj [(''text'', JStr [])])
      \<and> falsy_frame (JObj [(''text'', JStr [])]))
   \<and> process_line sample_env True 0 ''data: {"text":""}'' (''Hi'', sample_page) = (''Hi'', sample_page)
   \<and> (startsWith ''data: {"done":false}'' ''data: ''
      \<and> JSON_parse sample_env (drop 6 ''data: {"done":false}'') = Some (JObj [(''done'', JBool False)])
      \<and> falsy_frame (JObj [(''done'', JBool False)]))
   \<and> process_line sample_env True 0 ''data: {"done":false}'' (''Hi'', sample_page) = (''Hi'', sample_page)
   \<and> (startsWith ''data: {"error":""}'' ''data: ''
      \<and> JSON_parse sample_env (drop 6 ''data: {"error":""}'') = Some (JObj [(''error'', JStr [])])
      \<and> falsy_frame (JObj [(''error'', JStr [])]))
   \<and> process_line sample_env True 0 ''data: {"error":""}'' (''Hi'', sample_page) = (''Hi'', sample_page)\<close>
proof -
  have t: \<open>startsWith ''data: {"text":""}'' ''data: ''\<close>
    \<open>JSON_parse sample_env (drop 6 ''data: {"text":""}'') = Some (JObj [(''text'', JStr [])])\<close>
    \<open>falsy_frame (JObj [(''text'', JStr [])])\<close>
    by (simp_all add: startsWith_def sample_env_def parse_ev)
  have d: \<open>startsWith ''data: {"done":false}'' ''data: ''\<close>
    \<open>JSON_parse sample_env (drop 6 ''data: {"done":false}'') = Some (JObj [(''done'', JBool False)])\<close>
    \<open>falsy_frame (JObj [(''done'', JBool False)])\<close>
    by (simp_all add: startsWith_def sample_env_def parse_ev)
  have e: \<open>startsWith ''data: {"error":""}'' ''data: ''\<close>
    \<open>JSON_parse sample_env (drop 6 ''data: {"error":""}'') = Some (JObj [(''error'', JStr [])])\<close>
    \<open>falsy_frame (JObj [(''error'', JStr [])])\<close>
    by (simp_all add: startsWith_def sample_env_def parse_ev)
  from falsy_frame_ignored [OF t] falsy_frame_ignored [OF d] falsy_frame_ignored [OF e] t d e
  show ?thesis by blast
qed


section \<open>Text, done and error frames\<close>

text \<open>What one frame does to the accumulator, the children and the calls of \<open>speak\<close>.\<close>

lemma text_frame_step:
  assumes "startsWith l ''data: ''"
    and "JSON_parse E (drop 6 l) = Some (JObj [(''text'', JStr d)])"
  shows "fst (process_line E f i l (ft, st)) = ft @ d"
    and "chatMessages (snd (process_line E f i l (ft, st))) =
          (if d = [] then chatMessages st
           else (chatMessages st)[i := with_content (InnerHTML (marked_parse E (ft @ d))) (chatMessages st ! i)])"
    and "speakCalls (snd (process_line E f i l (ft, st))) = speakCalls st"
    and "inputDisabled (snd (process_line E f i l (ft, st))) = inputDisabled st"
    and "sendDisabled (snd (process_line E f i l (ft, st))) = sendDisabled st"
  using assms
  by (simp_all add: process_line_def on_frame_def truthy_field_def field_def Let_def)

lemma done_frame_step:
  assumes "startsWith l ''data: ''"
    and "JSON_parse E (drop 6 l) = Some (JObj [(''done'', JBool True)])"
  shows "process_line E f i l (ft, st) = (ft, loadChatHistory E (speak ft st))"
  using assms
  by (simp add: process_line_def on_frame_def truthy_field_def field_def)

lemma error_frame_step:
  assumes "startsWith l ''data: ''"
    and "JSON_parse E (drop 6 l) = Some (JObj [(''error'', JStr m)])" and "m \<noteq> []"
  shows "process_line E f i l (ft, st) = (ft, set_content E i (TextContent (''Error: '' @ m)) st)"
  using assms
  by (simp add: process_line_def on_frame_def truthy_field_def field_def)

lemma with_content_Element [simp]: "with_content c (Element cls old) = Element cls c"
  by (simp add: with_content_def)

lemma text_frames_run:
  assumes "\<forall>l \<in> set ls. startsWith l ''data: ''"
    and "map (\<lambda>l. JSON_parse E (drop 6 l)) ls = map (\<lambda>d. Some (JObj [(''text'', JStr d)])) ds"
    and "i < length (chatMessages st)" and "chatMessages st ! i = Element cls c"
  shows "fst (process_lines E f i ls (ft, st)) = ft @ concat ds
       \<and> length (chatMessages (snd (process_lines E f i ls (ft, st)))) = length (chatMessages st)
       \<and> chatMessages (snd (process_lines E f i ls (ft, st))) ! i =
           Element cls (if concat ds = [] then c else InnerHTML (marked_parse E (ft @ concat ds)))
       \<and> speakCalls (snd (process_lines E f i ls (ft, st))) = speakCalls st"
  using assms
proof (induction ls arbitrary: ds ft st c)
  case Nil
  then show ?case by simp
next
  case (Cons l ls)
  then obtain d ds' where ds: "ds = d # ds'" by (cases ds) auto
  from Cons.prems ds have sw: "startsWith l ''data: ''"
    and pl: "JSON_parse E (drop 6 l) = Some (JObj [(''text'', JStr d)])"
    and rest: "\<forall>l \<in> set ls. startsWith l ''data: ''"
      "map (\<lambda>l. JSON_parse E (drop 6 l)) ls = map (\<lambda>d. Some (JObj [(''text'', JStr d)])) ds'"
    by auto
  obtain ft1 st1 where p: "process_line E f i l (ft, st) = (ft1, st1)"
    by (cases "process_line E f i l (ft, st)")
  from text_frame_step [OF sw pl, of f i ft st] p
  have ft1: "ft1 = ft @ d"
    and cm: "chatMessages st1 =
          (if d = [] then chatMessages st
           else (chatMessages st)[i := with_content (InnerHTML (marked_parse E (ft @ d))) (chatMessages st ! i)])"
    and sc: "speakCalls st1 = speakCalls st"
    by simp_all
  from cm Cons.prems(3,4) have len: "length (chatMessages st1) = length (chatMessages st)"
    and at: "chatMessages st1 ! i = Element cls (if d = [] then c else InnerHTML (marked_parse E (ft @ d)))"
    by auto
  from len Cons.prems(3) have i1: "i < length (chatMessages st1)" by simp
  from Cons.IH [OF rest i1 at, of ft1]
  show ?case using p ft1 len sc ds
    by (cases "concat ds' = []") (auto simp del: concat_eq_Nil_conv)
qed

lemma stream_text_done:
  assumes fr: "map (\<lambda>l. JSON_parse E (drop 6 l)) (data_lines chunks) =
      map (\<lambda>d. Some (JObj [(''text'', JStr d)])) ds @ [Some (JObj [(''done'', JBool True)])]"
    and i: "i < length (chatMessages s)" and at: "chatMessages s ! i = Element cls c"
  shows "fst (read_loop E f i chunks (ft, s)) = ft @ concat ds
       \<and> length (chatMessages (snd (read_loop E f i chunks (ft, s)))) = length (chatMessages s)
       \<and> chatMessages (snd (read_loop E f i chunks (ft, s))) ! i =
           Element cls (if concat ds = [] then c else InnerHTML (marked_parse E (ft @ concat ds)))
       \<and> speakCalls (snd (read_loop E f i chunks (ft, s))) = speakCalls s @ [ft @ concat ds]"
proof -
  from fr obtain ls dl where dl: "data_lines chunks = ls @ [dl]"
    and ls: "map (\<lambda>l. JSON_parse E (drop 6 l)) ls = map (\<lambda>d. Some (JObj [(''text'', JStr d)])) ds"
    and pd: "JSON_parse E (drop 6 dl) = Some (JObj [(''done'', JBool True)])"
    by (auto simp: map_eq_append_conv)
  have "\<forall>l \<in> set (data_lines chunks). startsWith l ''data: ''"
    by (simp add: data_lines_def)
  with dl have sw: "\<forall>l \<in> set ls. startsWith l ''data: ''" and swd: "startsWith dl ''data: ''"
    by simp_all
  obtain ft1 s1 where r: "process_lines E f i ls (ft, s) = (ft1, s1)"
    by (cases "process_lines E f i ls (ft, s)")
  from text_frames_run [OF sw ls i at, of f ft] r
  have 1: "ft1 = ft @ concat ds" "length (chatMessages s1) = length (chatMessages s)"
    "chatMessages s1 ! i = Element cls (if concat ds = [] then c else InnerHTML (marked_parse E (ft @ concat ds)))"
    "speakCalls s1 = speakCalls s"
    by simp_all
  have "read_loop E f i chunks (ft, s) = process_line E f i dl (ft1, s1)"
    by (simp add: read_loop_data_lines dl r)
  also have "\<dots> = (ft1, loadChatHistory E (speak ft1 s1))"
    by (rule done_frame_step [OF swd pd])
  finally show ?thesis using 1 by simp
qed


section \<open>The empty state and the timer that removes it\<close>

lemma sendMessage_request_fields [simp]:
  "speakCalls (sendMessage_request v E st) = speakCalls st"
  "inputDisabled (sendMessage_request v E st) = True"
  "sendDisabled (sendMessage_request v E st) = True"
  "posted (sendMessage_request v E st) = posted st @ [(trim (inputValue st), sessionId st)]"
  "chatMessages (sendMessage_request v E st) =
     chatMessages st @ [Element ''message user'' (TextContent (trim (inputValue st))), TypingIndicator]"
  by (simp_all add: sendMessage_request_def Let_def split: variant.splits)

lemma remove_node_fields [simp]:
  "speakCalls (remove_node E e st) = speakCalls st"
  "inputDisabled (remove_node E e st) = inputDisabled st"
  "sendDisabled (remove_node E e st) = sendDisabled st"
  "posted (remove_node E e st) = posted st"
  "sessionId (remove_node E e st) = sessionId st"
  "listRequests (remove_node E e st) = listRequests st"
  by (simp_all add: remove_node_def split: option.splits)

lemma find_first_remove:
  "(case find_first P xs of None \<Rightarrow> xs @ ys | Some j \<Rightarrow> take j (xs @ ys) @ drop (Suc j) (xs @ ys))
     = remove_first P xs @ ys"
  by (induction xs) (auto split: option.splits)

lemma remove_node_children:
  assumes "chatMessages s = base @ r"
  shows "chatMessages (remove_node E (find_first P base) s) = remove_first P base @ r"
  using find_first_remove [where P = P and xs = base and ys = r] assms
  by (simp add: remove_node_def split: option.splits)

lemma find_first_less: "find_first P xs = Some j \<Longrightarrow> j < length xs"
  by (induction xs arbitrary: j) (auto split: if_splits)

lemma length_remove_first:
  "length (remove_first P xs) = (case find_first P xs of None \<Rightarrow> length xs | Some j \<Rightarrow> length xs - 1)"
proof (induction xs)
  case Nil
  then show ?case by simp
next
  case (Cons a xs)
  then show ?case
    by (cases "find_first P xs") (auto dest: find_first_less)
qed

text \<open>
  The loop touches the children through \<open>messageDiv\<close> only. Two runs over the same
  lines, on pages whose last child is \<open>messageDiv\<close> with the same content, agree on the
  accumulator, on the content of \<open>messageDiv\<close> and on what they pass to \<open>speak\<close>,
  whatever the children before it are.
\<close>

lemma process_line_rel:
  assumes "chatMessages st = pre @ [Element cls c]" and "chatMessages st' = pre' @ [Element cls c]"
  shows "\<exists>c1 sp.
      fst (process_line E f (length pre) l (ft, st)) = fst (process_line E f' (length pre') l (ft, st'))
    \<and> chatMessages (snd (process_line E f (length pre) l (ft, st))) = pre @ [Element cls c1]
    \<and> chatMessages (snd (process_line E f' (length pre') l (ft, st'))) = pre' @ [Element cls c1]
    \<and> speakCalls (snd (process_line E f (length pre) l (ft, st))) = speakCalls st @ sp
    \<and> speakCalls (snd (process_line E f' (length pre') l (ft, st'))) = speakCalls st' @ sp"
  using assms
  by (auto simp: process_line_def on_frame_def Let_def split: option.splits)

lemma process_lines_rel:
  assumes "chatMessages st = pre @ [Element cls c]" and "chatMessages st' = pre' @ [Element cls c]"
  shows "\<exists>c1 sp.
      fst (process_lines E f (length pre) ls (ft, st)) = fst (process_lines E f' (length pre') ls (ft, st'))
    \<and> chatMessages (snd (process_lines E f (length pre) ls (ft, st))) = pre @ [Element cls c1]
    \<and> chatMessages (snd (process_lines E f' (length pre') ls (ft, st'))) = pre' @ [Element cls c1]
    \<and> speakCalls (snd (process_lines E f (length pre) ls (ft, st))) = speakCalls st @ sp
    \<and> speakCalls (snd (process_lines E f' (length pre') ls (ft, st'))) = speakCalls st' @ sp"
  using assms
proof (induction ls arbitrary: ft st st' c)
  case Nil
  then show ?case by simp
next
  case (Cons l ls)
  obtain ft1 st1 where p: "process_line E f (length pre) l (ft, st) = (ft1, st1)"
    by (cases "process_line E f (length pre) l (ft, st)")
  obtain ft2 st2 where p': "process_line E f' (length pre') l (ft, st') = (ft2, st2)"
    by (cases "process_line E f' (length pre') l (ft, st')")
  from process_line_rel [OF Cons.prems, of E f l ft f'] p p'
  obtain c1 sp where ft: "ft2 = ft1"
    and c1: "chatMessages st1 = pre @ [Element cls c1]" "chatMessages st2 = pre' @ [Element cls c1]"
    and sp: "speakCalls st1 = speakCalls st @ sp" "speakCalls st2 = speakCalls st' @ sp"
    by auto
  from Cons.IH [OF c1, of ft1]
  obtain c2 sp2 where
    "fst (process_lines E f (length pre) ls (ft1, st1)) = fst (process_lines E f' (length pre') ls (ft1, st2))"
    "chatMessages (snd (process_lines E f (length pre) ls (ft1, st1))) = pre @ [Element cls c2]"
    "chatMessages (snd (process_lines E f' (length pre') ls (ft1, st2))) = pre' @ [Element cls c2]"
    "speakCalls (snd (process_lines E f (length pre) ls (ft1, st1))) = speakCalls st1 @ sp2"
    "speakCalls (snd (process_lines E f' (length pre') ls (ft1, st2))) = speakCalls st2 @ sp2"
    by blast
  then show ?case
    using p p' ft sp
    by (intro exI [of _ c2] exI [of _ "sp @ sp2"]) simp
qed

lemma read_loop_rel:
  assumes "chatMessages st = pre @ [Element cls c]" and "chatMessages st' = pre' @ [Element cls c]"
  shows "\<exists>c1 sp.
      fst (read_loop E f (length pre) chunks (ft, st)) = fst (read_loop E f' (length pre') chunks (ft, st'))
    \<and> chatMessages (snd (read_loop E f (length pre) chunks (ft, st))) = pre @ [Element cls c1]
    \<and> chatMessages (snd (read_loop E f' (length pre') chunks (ft, st'))) = pre' @ [Element cls c1]
    \<and> speakCalls (snd (read_loop E f (length pre) chunks (ft, st))) = speakCalls st @ sp
    \<and> speakCalls (snd (read_loop E f' (length pre') chunks (ft, st'))) = speakCalls st' @ sp"
  unfolding read_loop_lines by (rule process_lines_rel [OF assms])

lemma read_loop_append:
  "read_loop E f i (cs @ cs') s = read_loop E f i cs' (read_loop E f i cs s)"
  by (simp add: read_loop_def)


text \<open>
  The stream of \<open>sendMessage\<close> against a run of the loop alone on any page \<open>q\<close> whose
  last child is an empty bot message: whenever the callback of the timer runs, the
  accumulator, the content of \<open>messageDiv\<close> and the calls of \<open>speak\<close> are those of that
  run, and the children before \<open>messageDiv\<close> are those of the page when \<open>fetch\<close>
  resolved, less the typing indicator and, once the callback has run, the empty state.
\<close>

lemma sendMessage_stream_rel:
  assumes s: "chatMessages s = B @ [u, TypingIndicator]"
    and e: "case t of WhileReading k \<Rightarrow> e = find_first is_empty_state B | _ \<Rightarrow> True"
    and q: "chatMessages q = p @ [Element ''message bot'' (InnerHTML [])]"
  shows "\<exists>c sp.
      fst (sendMessage_stream v E t e chunks s) = fst (read_loop E g (length p) chunks ([], q))
    \<and> chatMessages (snd (sendMessage_stream v E t e chunks s)) =
        (case t of WhileReading k \<Rightarrow> remove_first is_empty_state B | _ \<Rightarrow> B)
          @ [u, Element ''message bot'' c]
    \<and> chatMessages (snd (read_loop E g (length p) chunks ([], q))) = p @ [Element ''message bot'' c]
    \<and> speakCalls (snd (sendMessage_stream v E t e chunks s)) = speakCalls s @ sp
    \<and> speakCalls (snd (read_loop E g (length p) chunks ([], q))) = speakCalls q @ sp"
proof -
  define s1 where "s1 = removeChild E (length (chatMessages s) - 1) s"
  define s2 where "s2 = appendChild E (Element ''message bot'' (InnerHTML [])) s1"
  define s3 where "s3 = (case v of AppJs \<Rightarrow> scrollToBottom E s2 | Part000 \<Rightarrow> s2)"
  define f where "f = (case v of AppJs \<Rightarrow> True | Part000 \<Rightarrow> isNearBottom E s2)"
  have cm1: "chatMessages s1 = B @ [u]"
    by (simp add: s1_def s)
  have cm3: "chatMessages s3 = (B @ [u]) @ [Element ''message bot'' (InnerHTML [])]"
    by (simp add: s3_def s2_def cm1 split: variant.splits)
  have sc3: "speakCalls s3 = speakCalls s"
    by (simp add: s3_def s2_def s1_def split: variant.splits)
  have i: "length (chatMessages s1) = length (B @ [u])"
    by (simp add: cm1)
  show ?thesis
  proof (cases t)
    case (WhileReading k)
    define i' where "i' = (case e of None \<Rightarrow> length (chatMessages s1) | Some j \<Rightarrow> length (chatMessages s1) - 1)"
    have st: "sendMessage_stream v E t e chunks s =
        (case read_loop E f (length (B @ [u])) (take k chunks) ([], s3) of
           (fullText, st) \<Rightarrow> read_loop E f i' (drop k chunks) (fullText, remove_node E e st))"
      unfolding sendMessage_stream_def Let_def s1_def [symmetric] s2_def [symmetric]
        s3_def [symmetric] f_def [symmetric] WhileReading i'_def i [symmetric]
      by simp
    obtain ft1 st1 where r1: "read_loop E f (length (B @ [u])) (take k chunks) ([], s3) = (ft1, st1)"
      by (cases "read_loop E f (length (B @ [u])) (take k chunks) ([], s3)")
    obtain ft2 q1 where r2: "read_loop E g (length p) (take k chunks) ([], q) = (ft2, q1)"
      by (cases "read_loop E g (length p) (take k chunks) ([], q)")
    from read_loop_rel [OF cm3 q, of E f "take k chunks" "[]" g] r1 r2
    obtain c1 sp1 where ft: "ft2 = ft1"
      and c1: "chatMessages st1 = (B @ [u]) @ [Element ''message bot'' c1]"
        "chatMessages q1 = p @ [Element ''message bot'' c1]"
      and sp1: "speakCalls st1 = speakCalls s3 @ sp1" "speakCalls q1 = speakCalls q @ sp1"
      by auto
    have ee: "e = find_first is_empty_state B"
      using e WhileReading by simp
    from c1(1) have "chatMessages st1 = B @ [u, Element ''message bot'' c1]"
      by simp
    from remove_node_children [OF this, of E is_empty_state]
    have cr: "chatMessages (remove_node E e st1) =
        (remove_first is_empty_state B @ [u]) @ [Element ''message bot'' c1]"
      by (simp add: ee)
    have i'': "i' = length (remove_first is_empty_state B @ [u])"
      using find_first_less [of is_empty_state B]
      by (auto simp: i'_def cm1 ee length_remove_first split: option.splits)
    from read_loop_rel [OF cr c1(2), of E f "drop k chunks" ft1 g]
    obtain c2 sp2 where
      "fst (read_loop E f i' (drop k chunks) (ft1, remove_node E e st1)) =
         fst (read_loop E g (length p) (drop k chunks) (ft1, q1))"
      "chatMessages (snd (read_loop E f i' (drop k chunks) (ft1, remove_node E e st1))) =
         (remove_first is_empty_state B @ [u]) @ [Element ''message bot'' c2]"
      "chatMessages (snd (read_loop E g (length p) (drop k chunks) (ft1, q1))) = p @ [Element ''message bot'' c2]"
      "speakCalls (snd (read_loop E f i' (drop k chunks) (ft1, remove_node E e st1))) =
         speakCalls (remove_node E e st1) @ sp2"
      "speakCalls (snd (read_loop E g (length p) (drop k chunks) (ft1, q1))) = speakCalls q1 @ sp2"
      unfolding i'' by blast
    moreover have "read_loop E g (length p) chunks ([], q) = read_loop E g (length p) (drop k chunks) (ft1, q1)"
      using read_loop_append [of E g "length p" "take k chunks" "drop k chunks" "([], q)"] r2 ft
      by simp
    ultimately show ?thesis
      using st r1 sp1 sc3 WhileReading
      by (intro exI [of _ c2] exI [of _ "sp1 @ sp2"]) simp
  next
    case WhileFetching
    have st: "sendMessage_stream v E t e chunks s = read_loop E f (length (B @ [u])) chunks ([], s3)"
      unfolding sendMessage_stream_def Let_def s1_def [symmetric] s2_def [symmetric]
        s3_def [symmetric] f_def [symmetric] WhileFetching i [symmetric]
      by simp
    from read_loop_rel [OF cm3 q, of E f chunks "[]" g] show ?thesis
      using st sc3 WhileFetching by auto
  next
    case AfterReturn
    have st: "sendMessage_stream v E t e chunks s = read_loop E f (length (B @ [u])) chunks ([], s3)"
      unfolding sendMessage_stream_def Let_def s1_def [symmetric] s2_def [symmetric]
        s3_def [symmetric] f_def [symmetric] AfterReturn i [symmetric]
      by simp
    from read_loop_rel [OF cm3 q, of E f chunks "[]" g] show ?thesis
      using st sc3 AfterReturn by auto
  qed
qed

text \<open>
  The children that \<open>sendMessage\<close> found, less the empty state once the callback of the
  timer has run.
\<close>

lemma sendMessage_ok_rel:
  assumes ne: "trim (inputValue st) \<noteq> []"
    and q: "chatMessages q = p @ [Element ''message bot'' (InnerHTML [])]"
  shows "\<exists>c sp.
      chatMessages (sendMessage v E t (Responded True chunks Closed) st) =
        (if t = AfterReturn then chatMessages st else remove_first is_empty_state (chatMessages st))
          @ [Element ''message user'' (TextContent (trim (inputValue st))), Element ''message bot'' c]
    \<and> chatMessages (sendMessage v E t (Responded True chunks ReadFailed) st) =
        (if t = AfterReturn then chatMessages st else remove_first is_empty_state (chatMessages st))
          @ [Element ''message user'' (TextContent (trim (inputValue st))), Element ''message bot'' c,
             Element ''message bot'' (InnerHTML (marked_parse E fetchErrorMessage))]
    \<and> speakCalls (sendMessage v E t (Responded True chunks Closed) st) = speakCalls st @ sp
    \<and> chatMessages (snd (read_loop E g (length p) chunks ([], q))) = p @ [Element ''message bot'' c]
    \<and> speakCalls (snd (read_loop E g (length p) chunks ([], q))) = speakCalls q @ sp"
proof -
  define e where "e = find_first is_empty_state (chatMessages st)"
  define s0 where "s0 = sendMessage_request v E st"
  define s where "s = (case t of WhileFetching \<Rightarrow> remove_node E e s0 | _ \<Rightarrow> s0)"
  define B where "B = (if t = WhileFetching then remove_first is_empty_state (chatMessages st) else chatMessages st)"
  define u where "u = Element ''message user'' (TextContent (trim (inputValue st)))"
  have cm0: "chatMessages s0 = chatMessages st @ [u, TypingIndicator]"
    by (simp add: s0_def u_def)
  have cms: "chatMessages s = B @ [u, TypingIndicator]"
    using remove_node_children [OF cm0, of E is_empty_state] cm0
    by (cases t) (simp_all add: s_def B_def e_def)
  have ss: "speakCalls s = speakCalls st"
    by (cases t) (simp_all add: s_def s0_def)
  have ee: "case t of WhileReading k \<Rightarrow> e = find_first is_empty_state B | _ \<Rightarrow> True"
    by (cases t) (simp_all add: B_def e_def)
  have T: "(case t of WhileReading k \<Rightarrow> remove_first is_empty_state B | _ \<Rightarrow> B) =
      (if t = AfterReturn then chatMessages st else remove_first is_empty_state (chatMessages st))"
    by (cases t) (simp_all add: B_def)
  have fin: "sendMessage v E t (Responded True chunks Closed) st =
      enable_controls (snd (sendMessage_stream v E t e chunks s))"
    "sendMessage v E t (Responded True chunks ReadFailed) st =
      enable_controls (addMessage v E ''bot'' fetchErrorMessage (snd (sendMessage_stream v E t e chunks s)))"
    using ne
    unfolding sendMessage_def Let_def e_def [symmetric] s0_def [symmetric] s_def [symmetric]
    by simp_all
  from sendMessage_stream_rel [OF cms ee q, where v = v and E = E and chunks = chunks and g = g]
  show ?thesis
    unfolding T fin u_def [symmetric] ss by auto
qed


section \<open>Text frames and a done frame\<close>

text \<open>
  Claim C1. When the lines of the response that carry the prefix are text frames
  followed by one done frame, the bot's message ends up holding the rendering of the
  concatenation of the deltas in the order of arrival, and \<open>speak\<close> is called once, with
  that concatenation, in both files, however the response is cut into reads and
  whenever the empty state goes. (\<open>marked.parse\<close> of the empty string is the empty
  string: with no delta, or only empty ones, nothing is rendered and the message stays
  empty.)
\<close>

theorem text_frames_then_done:
  assumes "marked_parse E [] = []"
    and "trim (inputValue st) \<noteq> []"
    and "map (\<lambda>l. JSON_parse E (drop 6 l)) (data_lines chunks) =
      map (\<lambda>d. Some (JObj [(''text'', JStr d)])) ds @ [Some (JObj [(''done'', JBool True)])]"
  shows "last (chatMessages (sendMessage v E t (Responded True chunks Closed) st)) =
           Element ''message bot'' (InnerHTML (marked_parse E (concat ds)))
       \<and> speakCalls (sendMessage v E t (Responded True chunks Closed) st) = speakCalls st @ [concat ds]"
proof -
  define q where "q = st\<lparr>chatMessages := [Element ''message bot'' (InnerHTML [])]\<rparr>"
  have cq: "chatMessages q = [] @ [Element ''message bot'' (InnerHTML [])]"
    by (simp add: q_def)
  have i: "0 < length (chatMessages q)" and at: "chatMessages q ! 0 = Element ''message bot'' (InnerHTML [])"
    by (simp_all add: q_def)
  from stream_text_done [OF assms(3) i at, of True "[]"]
  have c: "chatMessages (snd (read_loop E True 0 chunks ([], q))) ! 0 =
           Element ''message bot'' (InnerHTML (marked_parse E (concat ds)))"
    and sp: "speakCalls (snd (read_loop E True 0 chunks ([], q))) = speakCalls q @ [concat ds]"
    using assms(1) by (cases "concat ds = []"; simp del: concat_eq_Nil_conv)+
  from sendMessage_ok_rel [OF assms(2) cq, where v = v and E = E and t = t and chunks = chunks and g = True]
  obtain c' sp' where
    r: "chatMessages (sendMessage v E t (Responded True chunks Closed) st) =
        (if t = AfterReturn then chatMessages st else remove_first is_empty_state (chatMessages st))
          @ [Element ''message user'' (TextContent (trim (inputValue st))), Element ''message bot'' c']"
    and rs: "speakCalls (sendMessage v E t (Responded True chunks Closed) st) = speakCalls st @ sp'"
    and qc: "chatMessages (snd (read_loop E True 0 chunks ([], q))) = [Element ''message bot'' c']"
    and qs: "speakCalls (snd (read_loop E True 0 chunks ([], q))) = speakCalls q @ sp'"
    by auto
  from c qc have "c' = InnerHTML (marked_parse E (concat ds))"
    by simp
  moreover from sp qs have "sp' = [concat ds]"
    by simp
  ultimately show ?thesis
    using r rs by simp
qed

lemmas run_ev = sendMessage_def sendMessage_request_def sendMessage_stream_def enable_controls_def
  addMessage_def appendChild_def removeChild_def set_children_def set_content_def with_content_def
  reflow_def scrollToBottom_def scrollToBottomIfNear_def isNearBottom_def scrollHeight_def
  speak_def loadChatHistory_def createChatItem_def title_or_default_def
  read_loop_def process_chunk_def process_lines_def process_line_def startsWith_def
  on_frame_def truthy_field_def field_def trim_def white_space_def ws_prefix_def is_empty_state_def Let_def
  sample_env_def sample_page_def plain_marked_def

theorem text_frames_then_done_witness:
  \<open>marked_parse sample_env [] = []
   \<and> trim (inputValue sample_page) \<noteq> []
   \<and> map (\<lambda>l. JSON_parse sample_env (drop 6 l))
        (data_lines [''data: {"text":"Hi"}\<newline>\<newline>data: {"text":" there"}\<newline>\<newline>'', ''data: {"done":true}\<newline>\<newline>''])
      = map (\<lambda>d. Some (JObj [(''text'', JStr d)])) [''Hi'', '' there''] @ [Some (JObj [(''done'', JBool True)])]
   \<and> last (chatMessages (sendMessage Part000 sample_env (WhileReading 1)
        (Responded True [''data: {"text":"Hi"}\<newline>\<newline>data: {"text":" there"}\<newline>\<newline>'', ''data: {"done":true}\<newline>\<newline>''] Closed)
        sample_page))
      = Element ''message bot'' (InnerHTML (''<p>Hi there</p>\<newline>''))
   \<and> speakCalls (sendMessage Part000 sample_env (WhileReading 1)
        (Responded True [''data: {"text":"Hi"}\<newline>\<newline>data: {"text":" there"}\<newline>\<newline>'', ''data: {"done":true}\<newline>\<newline>''] Closed)
        sample_page)
      = [''Hi there'']\<close>
proof -
  have h1: "marked_parse sample_env [] = []"
    by (simp add: sample_env_def plain_marked_def)
  have h2: "trim (inputValue sample_page) \<noteq> []"
    by (simp add: run_ev)
  have h3: \<open>map (\<lambda>l. JSON_parse sample_env (drop 6 l))
        (data_lines [''data: {"text":"Hi"}\<newline>\<newline>data: {"text":" there"}\<newline>\<newline>'', ''data: {"done":true}\<newline>\<newline>''])
      = map (\<lambda>d. Some (JObj [(''text'', JStr d)])) [''Hi'', '' there''] @ [Some (JObj [(''done'', JBool True)])]\<close>
    by (simp add: data_lines_def startsWith_def sample_env_def parse_ev)
  have e1: \<open>marked_parse sample_env (concat [''Hi'', '' there'']) = ''<p>Hi there</p>\<newline>''\<close>
    by (simp add: sample_env_def plain_marked_def)
  have e2: "speakCalls sample_page @ [concat [''Hi'', '' there'']] = [''Hi there'']"
    by (simp add: sample_page_def)
  note t = text_frames_then_done [OF h1 h2 h3, of Part000 "WhileReading 1", unfolded e1 e2]
  from t h1 h2 h3 show ?thesis
    by blast
qed


section \<open>Frames split across reads\<close>

lemma text_frame_full_step:
  assumes "startsWith l ''data: ''"
    and "JSON_parse E (drop 6 l) = Some (JObj [(''text'', JStr d)])" and "d \<noteq> []"
  shows "process_line E f i l (ft, st) =
    (ft @ d, (if f then scrollToBottom E (set_content E i (InnerHTML (marked_parse E (ft @ d))) st)
              else set_content E i (InnerHTML (marked_parse E (ft @ d))) st))"
  using assms
  by (simp add: process_line_def on_frame_def truthy_field_def field_def Let_def)

lemma split_on_ne [simp]: "split_on c xs \<noteq> []"
  by (cases xs) (auto split: list.splits)

lemma split_on_append:
  "split_on c (a @ b) =
     butlast (split_on c a) @ [last (split_on c a) @ hd (split_on c b)] @ tl (split_on c b)"
proof (induction a)
  case Nil
  then show ?case by simp
next
  case (Cons x a)
  obtain l ls where s: "split_on c a = l # ls"
    by (cases "split_on c a") auto
  obtain m ms where s': "split_on c (a @ b) = m # ms"
    by (cases "split_on c (a @ b)") auto
  from Cons.IH s s' show ?case
    by (cases ls) (auto split: if_splits)
qed

lemma process_line_not_acted: "\<not> acts_on E l \<Longrightarrow> process_line E f i l s = s"
  by (auto simp: acts_on_def process_line_def)

lemma empty_line [simp]: "process_line E f i [] s = s"
  by (simp add: process_line_def startsWith_def)

text \<open>
  Claim C3, as amended. Each chunk is split on newlines by itself and nothing is kept
  from one read to the next. For any two consecutive reads \<open>c1\<close> and \<open>c2\<close> of a
  response: delivered in one read, the end of \<open>c1\<close> and the beginning of \<open>c2\<close> make one
  line; delivered in two, the last line of \<open>c1\<close> and the first line of \<open>c2\<close>, the two
  parts of a frame split between them, are handled as two lines. The frame is lost,
  the run being that of a response without it, whenever neither part is a line the
  loop acts on (the split falls in the prefix or inside the JSON text). When the first
  line of \<open>c2\<close> is empty (the split falls after the JSON text, before the newline that
  ends the frame), the first read holds the whole line and the run is that of the
  unsplit response.
\<close>

theorem split_frame:
  "read_loop E f i (cs @ [c1 @ c2] @ cs') s =
     read_loop E f i cs'
       (process_lines E f i
          (butlast (split_on (CHR 0x0A) c1)
             @ [last (split_on (CHR 0x0A) c1) @ hd (split_on (CHR 0x0A) c2)]
             @ tl (split_on (CHR 0x0A) c2))
          (read_loop E f i cs s))
   \<and> read_loop E f i (cs @ [c1, c2] @ cs') s =
     read_loop E f i cs'
       (process_lines E f i
          (butlast (split_on (CHR 0x0A) c1)
             @ [last (split_on (CHR 0x0A) c1), hd (split_on (CHR 0x0A) c2)]
             @ tl (split_on (CHR 0x0A) c2))
          (read_loop E f i cs s))
   \<and> (\<not> acts_on E (last (split_on (CHR 0x0A) c1)) \<and> \<not> acts_on E (hd (split_on (CHR 0x0A) c2)) \<longrightarrow>
        read_loop E f i (cs @ [c1, c2] @ cs') s =
          read_loop E f i cs'
            (process_lines E f i (butlast (split_on (CHR 0x0A) c1) @ tl (split_on (CHR 0x0A) c2))
               (read_loop E f i cs s)))
   \<and> (hd (split_on (CHR 0x0A) c2) = [] \<longrightarrow>
        read_loop E f i (cs @ [c1, c2] @ cs') s = read_loop E f i (cs @ [c1 @ c2] @ cs') s)"
proof -
  obtain h2 t2 where c2: "split_on (CHR 0x0A) c2 = h2 # t2"
    by (cases "split_on (CHR 0x0A) c2") auto
  obtain b1 l1 where c1: "split_on (CHR 0x0A) c1 = b1 @ [l1]"
    by (cases "split_on (CHR 0x0A) c1" rule: rev_cases) auto
  have j: "split_on (CHR 0x0A) (c1 @ c2) = b1 @ [l1 @ h2] @ t2"
    by (simp add: split_on_append c1 c2)
  show ?thesis
    by (simp add: read_loop_append process_chunk_def j c1 c2 process_line_not_acted)
qed

section \<open>Runs on the reference platform\<close>

lemma sample_page_trim: "trim (inputValue sample_page) = ''Hello''"
  by (simp add: sample_page_def trim_def white_space_def ws_prefix_def)

lemma sample_frames:
  \<open>JSON_parse sample_env ''{"text":"Hi"}'' = Some (JObj [(''text'', JStr ''Hi'')])\<close>
  \<open>JSON_parse sample_env ''{"text":" there"}'' = Some (JObj [(''text'', JStr '' there'')])\<close>
  \<open>JSON_parse sample_env ''{"error":"boom"}'' = Some (JObj [(''error'', JStr ''boom'')])\<close>
  \<open>JSON_parse sample_env ''{"done":true}'' = Some (JObj [(''done'', JBool True)])\<close>
  \<open>JSON_parse sample_env ''{"te'' = None\<close>
  by (simp_all add: sample_env_def parse_ev)

lemma sample_marked: "marked_parse sample_env s = (if s = [] then [] else ''<p>'' @ s @ ''</p>'' @ [CHR 0x0A])"
  by (simp add: sample_env_def plain_marked_def)

lemma sample_text_line:
  assumes "JSON_parse sample_env p = Some (JObj [(''text'', JStr d)])" and "d \<noteq> []"
  shows "process_line sample_env f i
      (CHR ''d'' # CHR ''a'' # CHR ''t'' # CHR ''a'' # CHR '':'' # CHR '' '' # p) (ft, st) =
    (ft @ d, (if f then scrollToBottom sample_env (set_content sample_env i (InnerHTML (marked_parse sample_env (ft @ d))) st)
              else set_content sample_env i (InnerHTML (marked_parse sample_env (ft @ d))) st))"
  by (rule text_frame_full_step) (simp_all add: startsWith_def assms)


text \<open>
  A send from \<open>sample_page\<close> whose empty state has gone while \<open>fetch\<close> was awaited: the
  transcript at the end is the user's message and the bot's message as the loop alone
  leaves it on \<open>streaming_page\<close>.
\<close>

lemma sample_send:
  assumes "chatMessages (snd (read_loop sample_env True 1 chunks ([], streaming_page))) =
      [Element ''message user'' (TextContent ''Hello''), Element ''message bot'' c]"
  shows "chatMessages (sendMessage v sample_env WhileFetching (Responded True chunks Closed) sample_page) =
      [Element ''message user'' (TextContent ''Hello''), Element ''message bot'' c]"
proof -
  have ne: "trim (inputValue sample_page) \<noteq> []"
    by (simp add: sample_page_trim)
  have q: "chatMessages streaming_page =
      [Element ''message user'' (TextContent ''Hello'')] @ [Element ''message bot'' (InnerHTML [])]"
    by (simp add: streaming_page_def)
  have r: "remove_first is_empty_state (chatMessages sample_page) = []"
    by (simp add: sample_page_def is_empty_state_def)
  from sendMessage_ok_rel [OF ne q, where v = v and E = sample_env and t = WhileFetching
      and chunks = chunks and g = True]
  show ?thesis
    using assms by (auto simp: r sample_page_trim)
qed

text \<open>
  Claim C3 as stated fails. The frame \<open>data: {"text":"Hi"}\<close> with the newline that
  ends it is split across two reads, the first holding all but the newline: the text
  is rendered, the frame is not lost. The same holds of a frame whose JSON text is
  followed by a space (\<open>JSON.parse\<close> accepts it), split before the space.
\<close>

theorem split_before_newline_counterexample:
  \<open>chatMessages (sendMessage AppJs sample_env WhileFetching
      (Responded True [''data: {"text":"Hi"}'', ''\<newline>''] Closed) sample_page) =
    [Element ''message user'' (TextContent ''Hello''),
     Element ''message bot'' (InnerHTML ''<p>Hi</p>\<newline>'')]
   \<and> JSON_parse sample_env (drop 6 ''data: {"text":"Hi"} '') = Some (JObj [(''text'', JStr ''Hi'')])
   \<and> chatMessages (sendMessage AppJs sample_env WhileFetching
      (Responded True [''data: {"text":"Hi"}'', '' \<newline>''] Closed) sample_page) =
    [Element ''message user'' (TextContent ''Hello''),
     Element ''message bot'' (InnerHTML ''<p>Hi</p>\<newline>'')]\<close>
proof -
  have p: \<open>JSON_parse sample_env (drop 6 ''data: {"text":"Hi"} '') = Some (JObj [(''text'', JStr ''Hi'')])\<close>
    by (simp add: sample_env_def parse_ev)
  have b: "process_line sample_env g i '' '' s = s" for g i s
    by (simp add: process_line_def startsWith_def)
  have \<open>chatMessages (snd (read_loop sample_env True 1 [''data: {"text":"Hi"}'', ''\<newline>''] ([], streaming_page))) =
    [Element ''message user'' (TextContent ''Hello''),
     Element ''message bot'' (InnerHTML ''<p>Hi</p>\<newline>'')]\<close>
    unfolding read_loop_lines
    by (simp add: sample_text_line [OF sample_frames(1)] sample_marked streaming_page_def)
  then have 1: \<open>chatMessages (sendMessage AppJs sample_env WhileFetching
      (Responded True [''data: {"text":"Hi"}'', ''\<newline>''] Closed) sample_page) =
    [Element ''message user'' (TextContent ''Hello''),
     Element ''message bot'' (InnerHTML ''<p>Hi</p>\<newline>'')]\<close>
    by (rule sample_send)
  have \<open>chatMessages (snd (read_loop sample_env True 1 [''data: {"text":"Hi"}'', '' \<newline>''] ([], streaming_page))) =
    [Element ''message user'' (TextContent ''Hello''),
     Element ''message bot'' (InnerHTML ''<p>Hi</p>\<newline>'')]\<close>
    unfolding read_loop_lines
    by (simp add: sample_text_line [OF sample_frames(1)] sample_marked b streaming_page_def)
  then have 2: \<open>chatMessages (sendMessage AppJs sample_env WhileFetching
      (Responded True [''data: {"text":"Hi"}'', '' \<newline>''] Closed) sample_page) =
    [Element ''message user'' (TextContent ''Hello''),
     Element ''message bot'' (InnerHTML ''<p>Hi</p>\<newline>'')]\<close>
    by (rule sample_send)
  from 1 2 p show ?thesis
    by blast
qed

theorem split_frame_witness:
  \<open>\<not> acts_on sample_env (last (split_on (CHR 0x0A) ''data: {"te''))
   \<and> \<not> acts_on sample_env (hd (split_on (CHR 0x0A) ''xt":"Hi"}\<newline>data: {"done":true}''))
   \<and> read_loop sample_env True 1
        ([''data: {"text":"A"}\<newline>''] @ [''data: {"te'', ''xt":"Hi"}\<newline>data: {"done":true}''] @ [''\<newline>''])
        ([], streaming_page)
     = read_loop sample_env True 1 [''\<newline>'']
        (process_lines sample_env True 1 [''data: {"done":true}'']
          (read_loop sample_env True 1 [''data: {"text":"A"}\<newline>''] ([], streaming_page)))\<close>
proof -
  have s1: \<open>split_on (CHR 0x0A) ''data: {"te'' = [''data: {"te'']\<close>
    and s2: \<open>split_on (CHR 0x0A) ''xt":"Hi"}\<newline>data: {"done":true}'' = [''xt":"Hi"}'', ''data: {"done":true}'']\<close>
    by simp_all
  have a1: \<open>\<not> acts_on sample_env (last (split_on (CHR 0x0A) ''data: {"te''))\<close>
    unfolding s1 by (simp add: acts_on_def sample_frames)
  have a2: \<open>\<not> acts_on sample_env (hd (split_on (CHR 0x0A) ''xt":"Hi"}\<newline>data: {"done":true}''))\<close>
    unfolding s2 by (simp add: acts_on_def startsWith_def)
  have e: \<open>butlast (split_on (CHR 0x0A) ''data: {"te'') = []\<close>
    \<open>tl (split_on (CHR 0x0A) ''xt":"Hi"}\<newline>data: {"done":true}'') = [''data: {"done":true}'']\<close>
    unfolding s1 s2 by simp_all
  note t = split_frame [of sample_env True 1 \<open>[''data: {"text":"A"}\<newline>'']\<close> \<open>''data: {"te''\<close>
      \<open>''xt":"Hi"}\<newline>data: {"done":true}''\<close> \<open>[''\<newline>'']\<close> "([], streaming_page)"]
  from t a1 a2 show ?thesis
    unfolding e append_Nil by blast
qed


section \<open>An error frame does not end the reading\<close>

lemma text_frames_acc:
  assumes "\<forall>l \<in> set ls. startsWith l ''data: ''"
    and "map (\<lambda>l. JSON_parse E (drop 6 l)) ls = map (\<lambda>d. Some (JObj [(''text'', JStr d)])) ds"
  shows "fst (process_lines E f i ls (ft, st)) = ft @ concat ds"
  using assms
proof (induction ls arbitrary: ds ft st)
  case Nil
  then show ?case by simp
next
  case (Cons l ls)
  then obtain d ds' where ds: "ds = d # ds'" by (cases ds) auto
  from Cons.prems ds have sw: "startsWith l ''data: ''"
    and pl: "JSON_parse E (drop 6 l) = Some (JObj [(''text'', JStr d)])"
    and rest: "\<forall>l \<in> set ls. startsWith l ''data: ''"
      "map (\<lambda>l. JSON_parse E (drop 6 l)) ls = map (\<lambda>d. Some (JObj [(''text'', JStr d)])) ds'"
    by auto
  obtain ft1 st1 where p: "process_line E f i l (ft, st) = (ft1, st1)"
    by (cases "process_line E f i l (ft, st)")
  from text_frame_step(1) [OF sw pl, of f i ft st] p have "ft1 = ft @ d"
    by simp
  with Cons.IH [OF rest, of ft1 st1] p ds show ?case
    by simp
qed

text \<open>
  The lines of a response that carry the prefix are text frames, one error frame with
  a non-empty message, then text frames again.
\<close>

lemma text_error_text_lines:
  assumes fr: "map (\<lambda>l. JSON_parse E (drop 6 l)) (data_lines chunks) =
      map (\<lambda>d. Some (JObj [(''text'', JStr d)])) ds1 @ [Some (JObj [(''error'', JStr m)])]
        @ map (\<lambda>d. Some (JObj [(''text'', JStr d)])) ds2"
  shows "\<exists>ls1 el ls2. data_lines chunks = ls1 @ [el] @ ls2
     \<and> (\<forall>l \<in> set ls1. startsWith l ''data: '') \<and> startsWith el ''data: ''
     \<and> (\<forall>l \<in> set ls2. startsWith l ''data: '')
     \<and> map (\<lambda>l. JSON_parse E (drop 6 l)) ls1 = map (\<lambda>d. Some (JObj [(''text'', JStr d)])) ds1
     \<and> JSON_parse E (drop 6 el) = Some (JObj [(''error'', JStr m)])
     \<and> map (\<lambda>l. JSON_parse E (drop 6 l)) ls2 = map (\<lambda>d. Some (JObj [(''text'', JStr d)])) ds2"
proof -
  from fr obtain ls1 r where 1: "data_lines chunks = ls1 @ r"
    and l1: "map (\<lambda>l. JSON_parse E (drop 6 l)) ls1 = map (\<lambda>d. Some (JObj [(''text'', JStr d)])) ds1"
    and r: "map (\<lambda>l. JSON_parse E (drop 6 l)) r = [Some (JObj [(''error'', JStr m)])]
        @ map (\<lambda>d. Some (JObj [(''text'', JStr d)])) ds2"
    by (auto simp: map_eq_append_conv)
  from r obtain el ls2 where 2: "r = el # ls2"
    and pe: "JSON_parse E (drop 6 el) = Some (JObj [(''error'', JStr m)])"
    and l2: "map (\<lambda>l. JSON_parse E (drop 6 l)) ls2 = map (\<lambda>d. Some (JObj [(''text'', JStr d)])) ds2"
    by (cases r) auto
  have "\<forall>l \<in> set (data_lines chunks). startsWith l ''data: ''"
    by (simp add: data_lines_def)
  with 1 2 l1 pe l2 show ?thesis
    by (intro exI [of _ ls1] exI [of _ el] exI [of _ ls2]) simp
qed

lemma text_error_text_acc:
  assumes fr: "map (\<lambda>l. JSON_parse E (drop 6 l)) (data_lines chunks) =
      map (\<lambda>d. Some (JObj [(''text'', JStr d)])) ds1 @ [Some (JObj [(''error'', JStr m)])]
        @ map (\<lambda>d. Some (JObj [(''text'', JStr d)])) ds2"
    and m: "m \<noteq> []"
  shows "fst (read_loop E f i chunks (ft, s)) = ft @ concat ds1 @ concat ds2"
proof -
  from text_error_text_lines [OF fr] obtain ls1 el ls2 where dl: "data_lines chunks = ls1 @ [el] @ ls2"
    and sw: "\<forall>l \<in> set ls1. startsWith l ''data: ''" "startsWith el ''data: ''"
      "\<forall>l \<in> set ls2. startsWith l ''data: ''"
    and l1: "map (\<lambda>l. JSON_parse E (drop 6 l)) ls1 = map (\<lambda>d. Some (JObj [(''text'', JStr d)])) ds1"
    and pe: "JSON_parse E (drop 6 el) = Some (JObj [(''error'', JStr m)])"
    and l2: "map (\<lambda>l. JSON_parse E (drop 6 l)) ls2 = map (\<lambda>d. Some (JObj [(''text'', JStr d)])) ds2"
    by blast
  obtain ft1 s1 where r: "process_lines E f i ls1 (ft, s) = (ft1, s1)"
    by (cases "process_lines E f i ls1 (ft, s)")
  from text_frames_acc [OF sw(1) l1, of f i ft s] r have 1: "ft1 = ft @ concat ds1"
    by simp
  have "read_loop E f i chunks (ft, s) =
      process_lines E f i ls2 (process_line E f i el (ft1, s1))"
    by (simp add: read_loop_data_lines dl r)
  also have "\<dots> = process_lines E f i ls2 (ft1, set_content E i (TextContent (''Error: '' @ m)) s1)"
    by (simp add: error_frame_step [OF sw(2) pe m])
  finally show ?thesis
    using text_frames_acc [OF sw(3) l2, of f i ft1] 1 by simp
qed

lemma text_error_text_run:
  assumes fr: "map (\<lambda>l. JSON_parse E (drop 6 l)) (data_lines chunks) =
      map (\<lambda>d. Some (JObj [(''text'', JStr d)])) ds1 @ [Some (JObj [(''error'', JStr m)])]
        @ map (\<lambda>d. Some (JObj [(''text'', JStr d)])) ds2"
    and m: "m \<noteq> []"
    and i: "i < length (chatMessages s)" and at: "chatMessages s ! i = Element cls c"
  shows "chatMessages (snd (read_loop E f i chunks (ft, s))) ! i =
           Element cls (if concat ds2 = [] then TextContent (''Error: '' @ m)
                        else InnerHTML (marked_parse E (ft @ concat ds1 @ concat ds2)))"
proof -
  from text_error_text_lines [OF fr] obtain ls1 el ls2 where dl: "data_lines chunks = ls1 @ [el] @ ls2"
    and sw: "\<forall>l \<in> set ls1. startsWith l ''data: ''" "startsWith el ''data: ''"
      "\<forall>l \<in> set ls2. startsWith l ''data: ''"
    and l1: "map (\<lambda>l. JSON_parse E (drop 6 l)) ls1 = map (\<lambda>d. Some (JObj [(''text'', JStr d)])) ds1"
    and pe: "JSON_parse E (drop 6 el) = Some (JObj [(''error'', JStr m)])"
    and l2: "map (\<lambda>l. JSON_parse E (drop 6 l)) ls2 = map (\<lambda>d. Some (JObj [(''text'', JStr d)])) ds2"
    by blast
  obtain ft1 s1 where r: "process_lines E f i ls1 (ft, s) = (ft1, s1)"
    by (cases "process_lines E f i ls1 (ft, s)")
  from text_frames_run [OF sw(1) l1 i at, of f ft] r
  have 1: "ft1 = ft @ concat ds1" "length (chatMessages s1) = length (chatMessages s)"
    and a1: "\<exists>c1. chatMessages s1 ! i = Element cls c1"
    by simp_all
  define s2 where "s2 = set_content E i (TextContent (''Error: '' @ m)) s1"
  from 1 a1 i have i2: "i < length (chatMessages s2)"
    and a2: "chatMessages s2 ! i = Element cls (TextContent (''Error: '' @ m))"
    by (auto simp: s2_def)
  have "read_loop E f i chunks (ft, s) =
      process_lines E f i ls2 (process_line E f i el (ft1, s1))"
    by (simp add: read_loop_data_lines dl r)
  also have "\<dots> = process_lines E f i ls2 (ft1, s2)"
    by (simp add: error_frame_step [OF sw(2) pe m] s2_def)
  finally show ?thesis
    using text_frames_run [OF sw(3) l2 i2 a2, of f ft1] 1 by simp
qed

text \<open>
  The transcript at the end of a send whose response is read to its end and holds text
  frames, one error frame with a non-empty message and text frames again.
\<close>

lemma sendMessage_text_error_text:
  assumes ne: "trim (inputValue st) \<noteq> []"
    and fr: "map (\<lambda>l. JSON_parse E (drop 6 l)) (data_lines chunks) =
      map (\<lambda>d. Some (JObj [(''text'', JStr d)])) ds1 @ [Some (JObj [(''error'', JStr m)])]
        @ map (\<lambda>d. Some (JObj [(''text'', JStr d)])) ds2"
    and m: "m \<noteq> []"
  shows "chatMessages (sendMessage v E t (Responded True chunks Closed) st) =
      (if t = AfterReturn then chatMessages st else remove_first is_empty_state (chatMessages st))
        @ [Element ''message user'' (TextContent (trim (inputValue st))),
           Element ''message bot''
             (if concat ds2 = [] then TextContent (''Error: '' @ m)
              else InnerHTML (marked_parse E (concat ds1 @ concat ds2)))]"
proof -
  define q where "q = st\<lparr>chatMessages := [Element ''message bot'' (InnerHTML [])]\<rparr>"
  have cq: "chatMessages q = [] @ [Element ''message bot'' (InnerHTML [])]"
    by (simp add: q_def)
  have i: "0 < length (chatMessages q)" and at: "chatMessages q ! 0 = Element ''message bot'' (InnerHTML [])"
    by (simp_all add: q_def)
  from text_error_text_run [OF fr m i at, of True "[]"]
  have c: "chatMessages (snd (read_loop E True 0 chunks ([], q))) ! 0 =
      Element ''message bot''
        (if concat ds2 = [] then TextContent (''Error: '' @ m)
         else InnerHTML (marked_parse E (concat ds1 @ concat ds2)))"
    by simp
  from sendMessage_ok_rel [OF ne cq, where v = v and E = E and t = t and chunks = chunks and g = True]
  obtain c' where
    r: "chatMessages (sendMessage v E t (Responded True chunks Closed) st) =
        (if t = AfterReturn then chatMessages st else remove_first is_empty_state (chatMessages st))
          @ [Element ''message user'' (TextContent (trim (inputValue st))), Element ''message bot'' c']"
    and qc: "chatMessages (snd (read_loop E True 0 chunks ([], q))) = [Element ''message bot'' c']"
    by auto
  from c qc have "c' = (if concat ds2 = [] then TextContent (''Error: '' @ m)
         else InnerHTML (marked_parse E (concat ds1 @ concat ds2)))"
    by simp
  with r show ?thesis
    by simp
qed

lemma sample_lines:
  \<open>data_lines [''data: {"text":"Hi"}\<newline>'', ''data: {"error":"boom"}\<newline>''] =
     [''data: {"text":"Hi"}'', ''data: {"error":"boom"}'']\<close>
  \<open>data_lines [''data: {"text":"Hi"}\<newline>'', ''data: {"error":"boom"}\<newline>'', ''data: {"text":" there"}\<newline>''] =
     [''data: {"text":"Hi"}'', ''data: {"error":"boom"}'', ''data: {"text":" there"}'']\<close>
  by (simp_all add: data_lines_def startsWith_def)

text \<open>
  Claim C2 as stated fails. A response of three frames, each in a read of its own:
  text \<open>Hi\<close>, error \<open>boom\<close>, text \<open> there\<close>. Had the body ended after the error, the
  bot's message would show the error; the text frame after it is appended to the
  accumulator and rendered over the error display.
\<close>

theorem error_then_text_counterexample:
  \<open>chatMessages (sendMessage AppJs sample_env WhileFetching
      (Responded True [''data: {"text":"Hi"}\<newline>'', ''data: {"error":"boom"}\<newline>''] Closed) sample_page) =
    [Element ''message user'' (TextContent ''Hello''),
     Element ''message bot'' (TextContent ''Error: boom'')]
   \<and> chatMessages (sendMessage AppJs sample_env WhileFetching
      (Responded True [''data: {"text":"Hi"}\<newline>'', ''data: {"error":"boom"}\<newline>'',
                       ''data: {"text":" there"}\<newline>''] Closed) sample_page) =
    [Element ''message user'' (TextContent ''Hello''),
     Element ''message bot'' (InnerHTML ''<p>Hi there</p>\<newline>'')]\<close>
proof -
  have ne: "trim (inputValue sample_page) \<noteq> []"
    by (simp add: sample_page_trim)
  have b: "''boom'' \<noteq> []"
    by simp
  have f1: \<open>map (\<lambda>l. JSON_parse sample_env (drop 6 l))
        (data_lines [''data: {"text":"Hi"}\<newline>'', ''data: {"error":"boom"}\<newline>'']) =
      map (\<lambda>d. Some (JObj [(''text'', JStr d)])) [''Hi''] @ [Some (JObj [(''error'', JStr ''boom'')])]
        @ map (\<lambda>d. Some (JObj [(''text'', JStr d)])) []\<close>
    unfolding sample_lines by (simp add: sample_frames)
  have f2: \<open>map (\<lambda>l. JSON_parse sample_env (drop 6 l))
        (data_lines [''data: {"text":"Hi"}\<newline>'', ''data: {"error":"boom"}\<newline>'', ''data: {"text":" there"}\<newline>'']) =
      map (\<lambda>d. Some (JObj [(''text'', JStr d)])) [''Hi''] @ [Some (JObj [(''error'', JStr ''boom'')])]
        @ map (\<lambda>d. Some (JObj [(''text'', JStr d)])) ['' there'']\<close>
    unfolding sample_lines by (simp add: sample_frames)
  have r: "remove_first is_empty_state (chatMessages sample_page) = []"
    by (simp add: sample_page_def is_empty_state_def)
  from sendMessage_text_error_text [OF ne f1 b, of AppJs WhileFetching]
    sendMessage_text_error_text [OF ne f2 b, of AppJs WhileFetching]
  show ?thesis
    by (simp add: r sample_page_trim sample_marked)
qed

text \<open>
  Claim C2, as amended. An error frame with a non-empty message does not end the
  reading: the loop reads on until the body of the response ends, and the text frames
  that follow the error, in the same read or in later ones, are handled as the ones
  before it. For a response read to its end whose lines with the prefix are text
  frames, one error frame with a non-empty message and text frames again, however it
  is cut into reads: the error frame leaves the accumulator as it is, so the
  accumulator ends as the concatenation of all the deltas, those after the error
  included; and when \<open>sendMessage\<close> returns the bot's message shows \<open>Error: \<close> and the
  message only if every delta after the error frame is empty, and otherwise the
  rendering of the accumulator, in place of the error display.
\<close>

theorem error_frame_not_terminal:
  assumes "trim (inputValue st) \<noteq> []"
    and "map (\<lambda>l. JSON_parse E (drop 6 l)) (data_lines chunks) =
      map (\<lambda>d. Some (JObj [(''text'', JStr d)])) ds1 @ [Some (JObj [(''error'', JStr m)])]
        @ map (\<lambda>d. Some (JObj [(''text'', JStr d)])) ds2"
    and "m \<noteq> []"
  shows "fst (read_loop E f i chunks (ft, s)) = ft @ concat ds1 @ concat ds2
    \<and> fst (sendMessage_stream v E t (find_first is_empty_state (chatMessages st)) chunks
        (case t of WhileFetching \<Rightarrow>
            remove_node E (find_first is_empty_state (chatMessages st)) (sendMessage_request v E st)
          | _ \<Rightarrow> sendMessage_request v E st)) = concat ds1 @ concat ds2
    \<and> chatMessages (sendMessage v E t (Responded True chunks Closed) st) =
      (if t = AfterReturn then chatMessages st else remove_first is_empty_state (chatMessages st))
        @ [Element ''message user'' (TextContent (trim (inputValue st))),
           Element ''message bot''
             (if concat ds2 = [] then TextContent (''Error: '' @ m)
              else InnerHTML (marked_parse E (concat ds1 @ concat ds2)))]"
proof -
  define e where "e = find_first is_empty_state (chatMessages st)"
  define s0 where "s0 = sendMessage_request v E st"
  define s' where "s' = (case t of WhileFetching \<Rightarrow> remove_node E e s0 | _ \<Rightarrow> s0)"
  define B where "B = (if t = WhileFetching then remove_first is_empty_state (chatMessages st) else chatMessages st)"
  define u where "u = Element ''message user'' (TextContent (trim (inputValue st)))"
  define q where "q = st\<lparr>chatMessages := [Element ''message bot'' (InnerHTML [])]\<rparr>"
  have cq: "chatMessages q = [] @ [Element ''message bot'' (InnerHTML [])]"
    by (simp add: q_def)
  have cm0: "chatMessages s0 = chatMessages st @ [u, TypingIndicator]"
    by (simp add: s0_def u_def)
  have cms: "chatMessages s' = B @ [u, TypingIndicator]"
    using remove_node_children [OF cm0, of E is_empty_state] cm0
    by (cases t) (simp_all add: s'_def B_def e_def)
  have ee: "case t of WhileReading k \<Rightarrow> e = find_first is_empty_state B | _ \<Rightarrow> True"
    by (cases t) (simp_all add: B_def e_def)
  from sendMessage_stream_rel [OF cms ee cq, where v = v and E = E and chunks = chunks and g = True]
  have "fst (sendMessage_stream v E t e chunks s') = fst (read_loop E True 0 chunks ([], q))"
    by auto
  also have "\<dots> = concat ds1 @ concat ds2"
    using text_error_text_acc [OF assms(2,3), of True 0 "[]" q] by simp
  finally have 2: "fst (sendMessage_stream v E t e chunks s') = concat ds1 @ concat ds2" .
  show ?thesis
    using text_error_text_acc [OF assms(2,3), of f i ft s] 2
      sendMessage_text_error_text [OF assms, of v t]
    unfolding s'_def s0_def e_def by simp
qed

theorem error_frame_not_terminal_witness:
  \<open>(trim (inputValue sample_page) \<noteq> []
    \<and> map (\<lambda>l. JSON_parse sample_env (drop 6 l))
        (data_lines [''data: {"text":"Hi"}\<newline>'', ''data: {"error":"boom"}\<newline>'', ''data: {"text":" there"}\<newline>'']) =
      map (\<lambda>d. Some (JObj [(''text'', JStr d)])) [''Hi''] @ [Some (JObj [(''error'', JStr ''boom'')])]
        @ map (\<lambda>d. Some (JObj [(''text'', JStr d)])) ['' there'']
    \<and> ''boom'' \<noteq> [])
   \<and> fst (read_loop sample_env True 1
        [''data: {"text":"Hi"}\<newline>'', ''data: {"error":"boom"}\<newline>'', ''data: {"text":" there"}\<newline>'']
        ([], streaming_page)) = ''Hi there''
   \<and> chatMessages (sendMessage Part000 sample_env (WhileReading 2)
        (Responded True [''data: {"text":"Hi"}\<newline>'', ''data: {"error":"boom"}\<newline>'', ''data: {"text":" there"}\<newline>''] Closed)
        sample_page) =
      [Element ''message user'' (TextContent ''Hello''),
       Element ''message bot'' (InnerHTML ''<p>Hi there</p>\<newline>'')]\<close>
proof -
  have ne: "trim (inputValue sample_page) \<noteq> []"
    by (simp add: sample_page_trim)
  have b: "''boom'' \<noteq> []"
    by simp
  have f2: \<open>map (\<lambda>l. JSON_parse sample_env (drop 6 l))
        (data_lines [''data: {"text":"Hi"}\<newline>'', ''data: {"error":"boom"}\<newline>'', ''data: {"text":" there"}\<newline>'']) =
      map (\<lambda>d. Some (JObj [(''text'', JStr d)])) [''Hi''] @ [Some (JObj [(''error'', JStr ''boom'')])]
        @ map (\<lambda>d. Some (JObj [(''text'', JStr d)])) ['' there'']\<close>
    unfolding sample_lines by (simp add: sample_frames)
  have r: "remove_first is_empty_state (chatMessages sample_page) = []"
    by (simp add: sample_page_def is_empty_state_def)
  from error_frame_not_terminal [OF ne f2 b, of True 1 "[]" streaming_page Part000 "WhileReading 2"]
    ne f2 b
  show ?thesis
    by (simp add: r sample_page_trim sample_marked)
qed


section \<open>Rendering by role\<close>

text \<open>
  The request is rejected or its status is not a success: the typing indicator goes
  and one bot message with the fixed text is appended.
\<close>

lemma sendMessage_failed:
  assumes ne: "trim (inputValue st) \<noteq> []"
  shows "chatMessages (sendMessage v E t Rejected st) =
      (if t = WhileFetching then remove_first is_empty_state (chatMessages st) else chatMessages st)
        @ [Element ''message user'' (TextContent (trim (inputValue st))),
           Element ''message bot'' (InnerHTML (marked_parse E fetchErrorMessage))]"
    and "chatMessages (sendMessage v E t (Responded False chunks en) st) =
      (if t = WhileFetching then remove_first is_empty_state (chatMessages st) else chatMessages st)
        @ [Element ''message user'' (TextContent (trim (inputValue st))),
           Element ''message bot'' (InnerHTML (marked_parse E fetchErrorMessage))]"
proof -
  define e where "e = find_first is_empty_state (chatMessages st)"
  define s0 where "s0 = sendMessage_request v E st"
  define s where "s = (case t of WhileFetching \<Rightarrow> remove_node E e s0 | _ \<Rightarrow> s0)"
  define B where "B = (if t = WhileFetching then remove_first is_empty_state (chatMessages st) else chatMessages st)"
  define u where "u = Element ''message user'' (TextContent (trim (inputValue st)))"
  have cm0: "chatMessages s0 = chatMessages st @ [u, TypingIndicator]"
    by (simp add: s0_def u_def)
  have cms: "chatMessages s = B @ [u, TypingIndicator]"
    using remove_node_children [OF cm0, of E is_empty_state] cm0
    by (cases t) (simp_all add: s_def B_def e_def)
  have fin: "sendMessage v E t Rejected st =
      enable_controls (addMessage v E ''bot'' fetchErrorMessage (removeChild E (length (chatMessages s) - 1) s))"
    "sendMessage v E t (Responded False chunks en) st =
      enable_controls (addMessage v E ''bot'' fetchErrorMessage (removeChild E (length (chatMessages s) - 1) s))"
    using ne
    unfolding sendMessage_def Let_def e_def [symmetric] s0_def [symmetric] s_def [symmetric]
    by simp_all
  show "chatMessages (sendMessage v E t Rejected st) =
      (if t = WhileFetching then remove_first is_empty_state (chatMessages st) else chatMessages st)
        @ [Element ''message user'' (TextContent (trim (inputValue st))),
           Element ''message bot'' (InnerHTML (marked_parse E fetchErrorMessage))]"
    unfolding fin by (simp add: cms) (simp add: B_def u_def)
  show "chatMessages (sendMessage v E t (Responded False chunks en) st) =
      (if t = WhileFetching then remove_first is_empty_state (chatMessages st) else chatMessages st)
        @ [Element ''message user'' (TextContent (trim (inputValue st))),
           Element ''message bot'' (InnerHTML (marked_parse E fetchErrorMessage))]"
    unfolding fin by (simp add: cms) (simp add: B_def u_def)
qed

text \<open>
  The messages that follow the user's message when \<open>sendMessage\<close> returns are made
  from the response alone.
\<close>

lemma sendMessage_bots:
  "\<exists>bots. list_all (\<lambda>b. \<exists>c. b = Element ''message bot'' c) bots
     \<and> (\<forall>s t. trim (inputValue s) \<noteq> [] \<longrightarrow>
          chatMessages (sendMessage v E t res s) =
            (if faded t res then remove_first is_empty_state (chatMessages s) else chatMessages s)
              @ Element ''message user'' (TextContent (trim (inputValue s))) # bots)"
proof -
  define err where "err = Element ''message bot'' (InnerHTML (marked_parse E fetchErrorMessage))"
  have f1: "faded t Rejected = (t = WhileFetching)" for t
    by (cases t) (simp_all add: faded_def)
  have f2: "faded t (Responded False chunks en) = (t = WhileFetching)" for t chunks en
    by (cases t) (simp_all add: faded_def)
  have f3: "faded t (Responded True chunks en) = (t \<noteq> AfterReturn)" for t chunks en
    by (cases t) (simp_all add: faded_def)
  show ?thesis
  proof (cases res)
    case Rejected
    show ?thesis
      unfolding Rejected
      by (rule exI [of _ "[err]"]) (simp add: sendMessage_failed f1 err_def)
  next
    case (Responded ok chunks en)
    show ?thesis
    proof (cases ok)
      case False
      show ?thesis
        unfolding Responded
        using False by (intro exI [of _ "[err]"]) (simp add: sendMessage_failed f2 err_def)
    next
      case True
      define q where "q = sample_page\<lparr>chatMessages := [Element ''message bot'' (InnerHTML [])]\<rparr>"
      have cq: "chatMessages q = [] @ [Element ''message bot'' (InnerHTML [])]"
        by (simp add: q_def)
      from read_loop_rel [OF cq cq, of E True chunks "[]" True]
      obtain c0 where c0: "chatMessages (snd (read_loop E True 0 chunks ([], q))) = [Element ''message bot'' c0]"
        by auto
      have r: "chatMessages (sendMessage v E t (Responded True chunks Closed) s) =
            (if t = AfterReturn then chatMessages s else remove_first is_empty_state (chatMessages s))
              @ [Element ''message user'' (TextContent (trim (inputValue s))), Element ''message bot'' c0]
          \<and> chatMessages (sendMessage v E t (Responded True chunks ReadFailed) s) =
            (if t = AfterReturn then chatMessages s else remove_first is_empty_state (chatMessages s))
              @ [Element ''message user'' (TextContent (trim (inputValue s))), Element ''message bot'' c0, err]"
        if ne: "trim (inputValue s) \<noteq> []" for s t
        using sendMessage_ok_rel [OF ne cq, where v = v and E = E and t = t and chunks = chunks and g = True] c0
        by (auto simp: err_def)
      show ?thesis
      proof (cases en)
        case Closed
        show ?thesis
          unfolding Responded Closed
          using True r by (intro exI [of _ "[Element ''message bot'' c0]"]) (simp add: f3)
      next
        case ReadFailed
        show ?thesis
          unfolding Responded ReadFailed
          using True r by (intro exI [of _ "[Element ''message bot'' c0, err]"]) (simp add: f3 err_def)
      qed
    qed
  qed
qed

text \<open>
  Claim C8. \<open>addMessage\<close> appends one \<open>div\<close>: for the role \<open>bot\<close> its content is the
  markup that \<open>marked.parse\<close> returns, set through \<open>innerHTML\<close>; for every other role,
  \<open>user\<close> among them, it is the message itself, set through \<open>textContent\<close>. What the
  user typed reaches the transcript through \<open>addMessage('user', message)\<close> only. For
  every outcome of the request and every time at which the empty state goes, there is
  one list of messages of class \<open>message bot\<close> such that, whatever page \<open>sendMessage\<close>
  starts from and whatever non-blank text was typed, the transcript at the end is the
  one it found (less the empty state once the timer has run), then the typed text,
  trimmed, as the literal text of a user message, then that list: the messages set
  through \<open>innerHTML\<close> are made from the response and do not depend on the typed text.
\<close>

theorem addMessage_rendering:
  "chatMessages (addMessage v E role message st) =
     chatMessages st @ [Element (''message '' @ role)
       (if role = ''bot'' then InnerHTML (marked_parse E message) else TextContent message)]
   \<and> chatMessages (addMessage v E ''user'' message st) =
     chatMessages st @ [Element ''message user'' (TextContent message)]
   \<and> chatMessages (addMessage v E ''bot'' message st) =
     chatMessages st @ [Element ''message bot'' (InnerHTML (marked_parse E message))]
   \<and> (\<exists>bots. list_all (\<lambda>b. \<exists>c. b = Element ''message bot'' c) bots
        \<and> (\<forall>s t. trim (inputValue s) \<noteq> [] \<longrightarrow>
             chatMessages (sendMessage v E t res s) =
               (if faded t res then remove_first is_empty_state (chatMessages s) else chatMessages s)
                 @ Element ''message user'' (TextContent (trim (inputValue s))) # bots))"
  using sendMessage_bots [of v E res] by simp

theorem addMessage_rendering_witness:
  \<open>chatMessages (addMessage Part000 sample_env ''user'' ''<b>Hello</b>'' sample_page) =
     chatMessages sample_page @ [Element ''message user'' (TextContent ''<b>Hello</b>'')]
   \<and> chatMessages (addMessage Part000 sample_env ''bot'' ''Hello'' sample_page) =
     chatMessages sample_page @ [Element ''message bot'' (InnerHTML ''<p>Hello</p>\<newline>'')]
   \<and> trim (inputValue sample_page) \<noteq> []
   \<and> trim (inputValue (sample_page\<lparr>inputValue := '' <b>Hello</b>''\<rparr>)) \<noteq> []
   \<and> chatMessages (sendMessage Part000 sample_env WhileFetching
        (Responded True [''data: {"text":"Hi"}\<newline>''] Closed) sample_page) =
       [Element ''message user'' (TextContent ''Hello''),
        Element ''message bot'' (InnerHTML ''<p>Hi</p>\<newline>'')]
   \<and> chatMessages (sendMessage Part000 sample_env AfterReturn
        (Responded True [''data: {"text":"Hi"}\<newline>''] Closed) (sample_page\<lparr>inputValue := '' <b>Hello</b>''\<rparr>)) =
       [EmptyState [''Tell me a joke'', ''Write a short poem'', ''Give me cooking tips''],
        Element ''message user'' (TextContent ''<b>Hello</b>''),
        Element ''message bot'' (InnerHTML ''<p>Hi</p>\<newline>'')]\<close>
proof -
  have m: \<open>marked_parse sample_env ''Hello'' = ''<p>Hello</p>\<newline>''\<close>
    by (simp add: sample_marked)
  have ne: "trim (inputValue sample_page) \<noteq> []"
    by (simp add: sample_page_trim)
  have tr: \<open>trim (inputValue (sample_page\<lparr>inputValue := '' <b>Hello</b>''\<rparr>)) = ''<b>Hello</b>''\<close>
    by (simp add: trim_def white_space_def ws_prefix_def)
  have ne': \<open>trim (inputValue (sample_page\<lparr>inputValue := '' <b>Hello</b>''\<rparr>)) \<noteq> []\<close>
    unfolding tr by simp
  have cm: \<open>chatMessages (sample_page\<lparr>inputValue := '' <b>Hello</b>''\<rparr>) =
      [EmptyState [''Tell me a joke'', ''Write a short poem'', ''Give me cooking tips'']]\<close>
    by (simp add: sample_page_def)
  have f: \<open>faded WhileFetching (Responded True [''data: {"text":"Hi"}\<newline>''] Closed)\<close>
    \<open>\<not> faded AfterReturn (Responded True [''data: {"text":"Hi"}\<newline>''] Closed)\<close>
    by (simp_all add: faded_def)
  have r: "remove_first is_empty_state (chatMessages sample_page) = []"
    by (simp add: sample_page_def is_empty_state_def)
  have \<open>chatMessages (snd (read_loop sample_env True 1 [''data: {"text":"Hi"}\<newline>''] ([], streaming_page))) =
    [Element ''message user'' (TextContent ''Hello''),
     Element ''message bot'' (InnerHTML ''<p>Hi</p>\<newline>'')]\<close>
    unfolding read_loop_lines
    by (simp add: sample_text_line [OF sample_frames(1)] sample_marked streaming_page_def)
  then have 1: \<open>chatMessages (sendMessage Part000 sample_env WhileFetching
      (Responded True [''data: {"text":"Hi"}\<newline>''] Closed) sample_page) =
    [Element ''message user'' (TextContent ''Hello''),
     Element ''message bot'' (InnerHTML ''<p>Hi</p>\<newline>'')]\<close>
    by (rule sample_send)
  note t1 = addMessage_rendering [of Part000 sample_env "''user''" \<open>''<b>Hello</b>''\<close> sample_page
      \<open>Responded True [''data: {"text":"Hi"}\<newline>''] Closed\<close>]
  note t2 = addMessage_rendering [of Part000 sample_env "''bot''" \<open>''Hello''\<close> sample_page Rejected,
      unfolded m]
  from t1 obtain bots where
    b: \<open>\<forall>s t. trim (inputValue s) \<noteq> [] \<longrightarrow>
        chatMessages (sendMessage Part000 sample_env t (Responded True [''data: {"text":"Hi"}\<newline>''] Closed) s) =
          (if faded t (Responded True [''data: {"text":"Hi"}\<newline>''] Closed)
           then remove_first is_empty_state (chatMessages s) else chatMessages s)
            @ Element ''message user'' (TextContent (trim (inputValue s))) # bots\<close>
    by blast
  from b [rule_format, OF ne, of WhileFetching] 1
  have bots: \<open>bots = [Element ''message bot'' (InnerHTML ''<p>Hi</p>\<newline>'')]\<close>
    by (simp add: f r)
  from b [rule_format, OF ne', of AfterReturn]
  have 2: \<open>chatMessages (sendMessage Part000 sample_env AfterReturn
        (Responded True [''data: {"text":"Hi"}\<newline>''] Closed) (sample_page\<lparr>inputValue := '' <b>Hello</b>''\<rparr>)) =
       [EmptyState [''Tell me a joke'', ''Write a short poem'', ''Give me cooking tips''],
        Element ''message user'' (TextContent ''<b>Hello</b>''),
        Element ''message bot'' (InnerHTML ''<p>Hi</p>\<newline>'')]\<close>
    unfolding tr bots cm by (simp add: f)
  from t1 t2 ne ne' 1 2 show ?thesis
    by blast
qed


section \<open>The controls during a request\<close>









section \<open>Scrolling on append\<close>

text \<open>
  Claim C5 does not hold of the code. In \<open>part_000\<close>, \<open>addMessage\<close> notes
  \<open>wasNearBottom\<close> before the append, and then calls \<open>scrollToBottomIfNear\<close>, which
  tests the distance to the bottom again, after the append: a view that was at the
  bottom is left where it was once the new message is more than 10 pixels high. In
  \<open>app.js\<close>, \<open>addMessage\<close> scrolls to the bottom whatever the position was. And in
  \<open>part_000\<close> the loop over the frames uses the \<open>wasNearBottom\<close> that was computed once
  before the first read: a view scrolled to the top during the stream is moved to the
  bottom by the next text frame.
\<close>

theorem addMessage_scroll_defect:
  \<open>isNearBottom sample_env (scrolled_page 100)
   \<and> scrollTop (addMessage Part000 sample_env ''bot'' ''Hi'' (scrolled_page 100)) = 100
   \<and> scrollHeight sample_env (addMessage Part000 sample_env ''bot'' ''Hi'' (scrolled_page 100))
       - clientHeight (addMessage Part000 sample_env ''bot'' ''Hi'' (scrolled_page 100)) = 140
   \<and> \<not> isNearBottom sample_env (scrolled_page 0)
   \<and> scrollTop (addMessage AppJs sample_env ''bot'' ''Hi'' (scrolled_page 0)) = 140
   \<and> scrollTop (snd (process_line sample_env True 3 ''data: {"text":"Hi"}'' ([], scrolled_page 0))) = 100\<close>
proof -
  have a: "isNearBottom sample_env (scrolled_page 100)"
    "\<not> isNearBottom sample_env (scrolled_page 0)"
    by (simp_all add: isNearBottom_def scrollHeight_def scrolled_page_def sample_page_def sample_env_def)
  have b: "scrollTop (addMessage Part000 sample_env ''bot'' ''Hi'' (scrolled_page 100)) = 100"
    "scrollHeight sample_env (addMessage Part000 sample_env ''bot'' ''Hi'' (scrolled_page 100))
       - clientHeight (addMessage Part000 sample_env ''bot'' ''Hi'' (scrolled_page 100)) = 140"
    "scrollTop (addMessage AppJs sample_env ''bot'' ''Hi'' (scrolled_page 0)) = 140"
    by (simp_all add: addMessage_def appendChild_def set_children_def reflow_def scrollToBottomIfNear_def
        scrollToBottom_def isNearBottom_def scrollHeight_def scrolled_page_def sample_page_def
        sample_env_def Let_def)
  have c: \<open>scrollTop (snd (process_line sample_env True 3 ''data: {"text":"Hi"}'' ([], scrolled_page 0))) = 100\<close>
    by (simp add: sample_text_line [OF sample_frames(1)] set_content_def set_children_def reflow_def
        scrollToBottom_def scrollHeight_def with_content_def scrolled_page_def sample_page_def)
       (simp add: sample_env_def)
  from a b c show ?thesis by blast
qed


section \<open>Suggestions\<close>

lemma mset_insert_by: "mset (fst (insert_by c k x ys)) = add_mset x (mset ys)"
proof (induction ys arbitrary: k)
  case Nil
  then show ?case by simp
next
  case (Cons y ys)
  obtain zs k' where i: "insert_by c (Suc k) x ys = (zs, k')"
    by (cases "insert_by c (Suc k) x ys")
  with Cons.IH [of "Suc k"] have "mset zs = add_mset x (mset ys)" by simp
  with i show ?case by simp
qed

lemma mset_sort_by: "mset (fst (sort_by c k xs)) = mset xs"
proof (induction xs arbitrary: k)
  case Nil
  then show ?case by simp
next
  case (Cons x xs)
  obtain ys k' where s: "sort_by c k xs = (ys, k')"
    by (cases "sort_by c k xs")
  with Cons.IH [of k] have "mset ys = mset xs" by simp
  with s show ?case by (simp add: mset_insert_by)
qed

lemma distinct_suggestionPool: "distinct suggestionPool"
  by (simp add: suggestionPool_def)

lemma length_suggestionPool: "length suggestionPool = 15"
  by (simp add: suggestionPool_def)

text \<open>
  Claim C9. For every count up to the size of the pool and every sequence of values of
  \<open>Math.random()\<close>, \<open>getRandomSuggestions\<close> returns that many entries, no two of them
  equal, each one an entry of the pool.
\<close>

theorem getRandomSuggestions_distinct:
  assumes "n \<le> length suggestionPool"
  shows "length (getRandomSuggestions rnd n) = n
       \<and> distinct (getRandomSuggestions rnd n)
       \<and> set (getRandomSuggestions rnd n) \<subseteq> set suggestionPool"
proof -
  define shuffled where "shuffled = fst (sort_by (\<lambda>k. 0.5 - rnd k) 0 suggestionPool)"
  have m: "mset shuffled = mset suggestionPool"
    by (simp add: shuffled_def mset_sort_by)
  then have l: "length shuffled = length suggestionPool"
    by (rule mset_eq_length)
  from m have s: "set shuffled = set suggestionPool"
    by (rule mset_eq_setD)
  from mset_eq_imp_distinct_iff [OF m] distinct_suggestionPool have d: "distinct shuffled"
    by simp
  have g: "getRandomSuggestions rnd n = take n shuffled"
    by (simp add: getRandomSuggestions_def shuffled_def)
  from l assms have "length (take n shuffled) = n"
    by simp
  moreover from d have "distinct (take n shuffled)"
    by (rule distinct_take)
  moreover from s set_take_subset [of n shuffled] have "set (take n shuffled) \<subseteq> set suggestionPool"
    by simp
  ultimately show ?thesis
    unfolding g by blast
qed

theorem getRandomSuggestions_distinct_witness:
  "(3::nat) \<le> length suggestionPool
   \<and> length (getRandomSuggestions (\<lambda>k. 1 / 4) 3) = 3
   \<and> distinct (getRandomSuggestions (\<lambda>k. 1 / 4) 3)
   \<and> set (getRandomSuggestions (\<lambda>k. 1 / 4) 3) \<subseteq> set suggestionPool
   \<and> getRandomSuggestions (\<lambda>k. 1 / 4) 3 =
       [''What's your favorite color?'', ''Explain blockchain technology'', ''Give me cooking tips'']"
proof -
  have h: "(3::nat) \<le> length suggestionPool"
    by (simp add: length_suggestionPool)
  have v: "getRandomSuggestions (\<lambda>k. 1 / 4) 3 =
       [''What's your favorite color?'', ''Explain blockchain technology'', ''Give me cooking tips'']"
    by (simp add: getRandomSuggestions_def suggestionPool_def Let_def)
  from getRandomSuggestions_distinct [OF h, of "\<lambda>k. 1 / 4"] h v
  show ?thesis by blast
qed


section \<open>Deleting a chat\<close>



end
